theory Spec2Isabelle
  imports Main
begin

section \<open>The syntax tree the checkers read\<close>

text \<open>
  Both tools parse Go source with \<^verbatim>\<open>go/parser\<close> and inspect the resulting
  \<^verbatim>\<open>go/ast\<close> tree through type assertions. The tree is one datatype, a constructor for
  every node type the code asserts on, and \<open>OtherNode\<close> (with its children in the order
  \<^verbatim>\<open>ast.Walk\<close> visits them) for every other node type (files, general declarations,
  block and other statements, types, function literals, ...).

  An identifier carries \<^verbatim>\<open>Obj\<close>, a pointer out of the tree: \<open>None\<close> when the parser
  did not resolve the identifier in the file, otherwise what \<^verbatim>\<open>Obj.Decl\<close> is: a
  \<^verbatim>\<open>*ast.ValueSpec\<close> with its \<^verbatim>\<open>Values\<close>, or some other declaration. Of an
  initializer in \<^verbatim>\<open>Values\<close> the code reads only whether it is a \<^verbatim>\<open>*ast.BasicLit\<close>,
  and then its \<^verbatim>\<open>Value\<close>.
  A selector expression carries \<^verbatim>\<open>X\<close> and \<^verbatim>\<open>Sel.Name\<close>.
  A function declaration carries \<^verbatim>\<open>Name.Name\<close>, \<^verbatim>\<open>Type\<close> (\<open>None\<close> when nil) with
  \<^verbatim>\<open>Type.Results\<close> (\<open>None\<close> when nil, else the type of each field of the result list),
  and \<^verbatim>\<open>Body\<close> (\<open>None\<close> when nil, else \<^verbatim>\<open>Body.List\<close>).
  A basic literal carries \<^verbatim>\<open>Value\<close>, the literal as written in the source, quotes
  included.
\<close>

datatype initializer = LiteralInit string | OtherInit

datatype objDecl = ValueSpec "initializer list" | OtherDecl

datatype node =
    Ident string "objDecl option"
  | BasicLit string
  | CompositeLit "node option" "node list"
  | KeyValueExpr node node
  | CallExpr node "node list"
  | UnaryExpr node
  | StarExpr node
  | SelectorExpr node string
  | ReturnStmt "node list"
  | FuncDecl string "node list option option" "node list option"
  | OtherNode "node list"

text \<open>
  A run-time panic of the Go program: a failed type assertion \<^verbatim>\<open>x.(T)\<close>, an index out
  of range, slice bounds out of range, a nil pointer dereference. A panic ends the run.
\<close>

datatype panic = TypeAssertion | IndexOutOfRange | SliceBounds | NilDereference

text \<open>\<^verbatim>\<open>for _, x := range xs { ... }\<close> over a state, stopping at the first panic.\<close>

fun forEach :: "('a \<Rightarrow> 's \<Rightarrow> 'e + 's) \<Rightarrow> 'a list \<Rightarrow> 's \<Rightarrow> 'e + 's" where
  "forEach f [] s = Inr s"
| "forEach f (x # xs) s = (case f x s of Inl e \<Rightarrow> Inl e | Inr s' \<Rightarrow> forEach f xs s')"

section \<open>doc-checker: the provider catalog\<close>

record resourceDefinition =
  name :: string
  fnc :: string

record provider =
  datasources :: "resourceDefinition list"
  resources :: "resourceDefinition list"

text \<open>\<^verbatim>\<open>val[1 : len(val)-1]\<close>: the slice panics unless \<open>2 \<le> len(val)\<close>.\<close>

definition decodeString :: "string \<Rightarrow> panic + string" where
  "decodeString val =
     (if length val < 2 then Inl SliceBounds else Inr (take (length val - 2) (drop 1 val)))"

text \<open>
  One entry of the \<^verbatim>\<open>ResourcesMap\<close> or \<^verbatim>\<open>DataSourcesMap\<close> literal:
  \<^verbatim>\<open>resourceDefinition{name: decodeString(eltttt.Key.(*ast.BasicLit).Value),
  fnc: eltttt.Value.(*ast.CallExpr).Fun.(*ast.Ident).Name}\<close>, after
  \<^verbatim>\<open>eltttt := elttt.(*ast.KeyValueExpr)\<close>.
\<close>

definition resourceEntry :: "node \<Rightarrow> panic + resourceDefinition" where
  "resourceEntry elttt =
     (case elttt of
        KeyValueExpr k v \<Rightarrow>
          (case k of
             BasicLit s \<Rightarrow>
               (case decodeString s of
                  Inl e \<Rightarrow> Inl e
                | Inr n \<Rightarrow>
                    (case v of
                       CallExpr f args \<Rightarrow>
                         (case f of
                            Ident g ob \<Rightarrow> Inr \<lparr>name = n, fnc = g\<rparr>
                          | _ \<Rightarrow> Inl TypeAssertion)
                     | _ \<Rightarrow> Inl TypeAssertion))
           | _ \<Rightarrow> Inl TypeAssertion)
      | _ \<Rightarrow> Inl TypeAssertion)"

definition appendEntry :: "node \<Rightarrow> resourceDefinition list \<Rightarrow> panic + resourceDefinition list" where
  "appendEntry elttt acc =
     (case resourceEntry elttt of Inl e \<Rightarrow> Inl e | Inr d \<Rightarrow> Inr (acc @ [d]))"

text \<open>One element of the struct literal the \<^verbatim>\<open>Provider\<close> function returns.\<close>

definition providerField :: "node \<Rightarrow> provider \<Rightarrow> panic + provider" where
  "providerField elt p =
     (case elt of
        KeyValueExpr k v \<Rightarrow>
          (case k of
             Ident key ob \<Rightarrow>
               (if key = ''ResourcesMap'' then
                  (case v of
                     CompositeLit ty elts \<Rightarrow>
                       (case forEach appendEntry elts (resources p) of
                          Inl e \<Rightarrow> Inl e
                        | Inr rs \<Rightarrow> Inr (p\<lparr>resources := rs\<rparr>))
                   | _ \<Rightarrow> Inl TypeAssertion)
                else if key = ''DataSourcesMap'' then
                  (case v of
                     CompositeLit ty elts \<Rightarrow>
                       (case forEach appendEntry elts (datasources p) of
                          Inl e \<Rightarrow> Inl e
                        | Inr ds \<Rightarrow> Inr (p\<lparr>datasources := ds\<rparr>))
                   | _ \<Rightarrow> Inl TypeAssertion)
                else Inr p)
           | _ \<Rightarrow> Inl TypeAssertion)
      | _ \<Rightarrow> Inl TypeAssertion)"

text \<open>
  One statement of the body: only return statements are read, and of those
  \<^verbatim>\<open>ret.Results[0].(*ast.UnaryExpr).X.(*ast.CompositeLit)\<close>.
\<close>

definition providerStmt :: "node \<Rightarrow> provider \<Rightarrow> panic + provider" where
  "providerStmt stmt p =
     (case stmt of
        ReturnStmt results \<Rightarrow>
          (case results of
             [] \<Rightarrow> Inl IndexOutOfRange
           | r # rest \<Rightarrow>
               (case r of
                  UnaryExpr x \<Rightarrow>
                    (case x of
                       CompositeLit ty elts \<Rightarrow> forEach providerField elts p
                     | _ \<Rightarrow> Inl TypeAssertion)
                | _ \<Rightarrow> Inl TypeAssertion))
      | _ \<Rightarrow> Inr p)"

definition providerDecl :: "node \<Rightarrow> provider \<Rightarrow> panic + provider" where
  "providerDecl decl p =
     (case decl of
        FuncDecl fname ty body \<Rightarrow>
          (if fname \<noteq> ''Provider'' then Inr p
           else (case body of
                   None \<Rightarrow> Inl NilDereference
                 | Some stmts \<Rightarrow> forEach providerStmt stmts p))
      | _ \<Rightarrow> Inr p)"

text \<open>
  \<^verbatim>\<open>parseProviderDefinition\<close>, on the declarations \<^verbatim>\<open>f.Decls\<close> of the parsed
  \<^verbatim>\<open>provider.go\<close>. (A file that does not parse is returned as an error before any of
  this runs; the debug line for an unrecognised key is not part of the result.)
\<close>

definition parseProviderDefinition :: "node list \<Rightarrow> panic + provider" where
  "parseProviderDefinition decls =
     forEach providerDecl decls \<lparr>datasources = [], resources = []\<rparr>"


section \<open>doc-checker: classifying documentation\<close>

subsection \<open>The string functions of the Go library the code calls\<close>

definition HasPrefix :: "string \<Rightarrow> string \<Rightarrow> bool" where
  "HasPrefix s pre = (take (length pre) s = pre)"

definition HasSuffix :: "string \<Rightarrow> string \<Rightarrow> bool" where
  "HasSuffix s suf = (length suf \<le> length s \<and> drop (length s - length suf) s = suf)"

fun Contains :: "string \<Rightarrow> string \<Rightarrow> bool" where
  "Contains [] sub = (sub = [])"
| "Contains (c # cs) sub = (HasPrefix (c # cs) sub \<or> Contains cs sub)"

text \<open>\<^verbatim>\<open>strings.LastIndex\<close>: the index of the last occurrence, \<open>-1\<close> when there is none.\<close>

fun LastIndex :: "string \<Rightarrow> string \<Rightarrow> int" where
  "LastIndex [] sub = (if sub = [] then 0 else - 1)"
| "LastIndex (c # cs) sub =
     (let i = LastIndex cs sub
      in if 0 \<le> i then i + 1 else if HasPrefix (c # cs) sub then 0 else - 1)"

text \<open>\<^verbatim>\<open>strings.Split(line, ": ")\<close>; \<open>acc\<close> holds the current part, reversed.\<close>

fun splitColonSpace :: "string \<Rightarrow> string \<Rightarrow> string list" where
  "splitColonSpace acc [] = [rev acc]"
| "splitColonSpace acc [c] = [rev (c # acc)]"
| "splitColonSpace acc (c # d # cs) =
     (if c = CHR '':'' \<and> d = CHR '' '' then rev acc # splitColonSpace [] cs
      else splitColonSpace (c # acc) (d # cs))"

text \<open>\<^verbatim>\<open>strings.Replace(s, old, new, -1)\<close> for one-byte \<open>old\<close> and \<open>new\<close>.\<close>

definition Replace :: "string \<Rightarrow> char \<Rightarrow> char \<Rightarrow> string" where
  "Replace s old new = map (\<lambda>c. if c = old then new else c) s"

text \<open>
  The lines a \<^verbatim>\<open>bufio.Scanner\<close> yields: the input is cut at each newline, one carriage
  return before the newline is dropped, a last line needs no newline, and the scan ends at a
  line that does not fit the scanner's buffer of 64 KiB (the newline included).
\<close>

definition dropCR :: "string \<Rightarrow> string" where
  "dropCR l = (if l \<noteq> [] \<and> last l = CHR 0x0D then butlast l else l)"

fun scanLines :: "string \<Rightarrow> string \<Rightarrow> string list" where
  "scanLines acc [] = (if acc = [] \<or> 65535 < length acc then [] else [dropCR (rev acc)])"
| "scanLines acc (c # cs) =
     (if c = CHR 0x0A
      then (if 65535 < length acc then [] else dropCR (rev acc) # scanLines [] cs)
      else scanLines (c # acc) cs)"

subsection \<open>classifyDoc\<close>

datatype docType = docTypeDatasource | docTypeResource

text \<open>
  What ends a step other than a result: a panic, the error \<^verbatim>\<open>classifyDoc\<close> returns
  (\<^verbatim>\<open>could not find sidebar_current\<close>), or an error of opening or reading a file.
\<close>

datatype failure = Panic panic | CouldNotFindSidebar | IOError

text \<open>
  The two strips of a kind keyword (\<^verbatim>\<open>datasource-\<close> with \<open>k = 11\<close>, \<^verbatim>\<open>resource-\<close>
  with \<open>k = 9\<close>): first as a prefix, then up to its last occurrence.
\<close>

definition stripKeyword :: "string \<Rightarrow> nat \<Rightarrow> string \<Rightarrow> string" where
  "stripKeyword kw k line =
     (let line1 = (if HasPrefix line kw then drop k line else line)
      in if Contains line1 kw then drop (nat (LastIndex line1 kw + int k)) line1 else line1)"

text \<open>The end of \<^verbatim>\<open>classifyDoc\<close>, after the loop: \<open>n\<close> is the name the loop left.\<close>

definition canonicalName :: "string \<Rightarrow> docType \<Rightarrow> string \<Rightarrow> failure + (string \<times> docType)" where
  "canonicalName providerName t n =
     (if n = [] then Inl CouldNotFindSidebar
      else Inr (providerName @ ''_'' @ Replace (Replace n CHR '' '' CHR ''_'') CHR ''-'' CHR ''_'', t))"

text \<open>
  The body of the loop from the front-matter value on (the value is the text between the
  quotes): the prefixes \<^verbatim>\<open>docs-\<close> and \<^verbatim>\<open>providerName-\<close> are cut, then the kind is
  decided. \<open>None\<close> when neither kind applies and the loop goes on to the next line,
  otherwise the loop ends and this is what \<^verbatim>\<open>classifyDoc\<close> returns.
\<close>

definition classifyValue :: "string \<Rightarrow> string \<Rightarrow> string \<Rightarrow> (failure + (string \<times> docType)) option" where
  "classifyValue providerName path line1 =
     (let line2 = (if HasPrefix line1 ''docs-'' then drop 5 line1 else line1);
          line3 = (if HasPrefix line2 (providerName @ ''-'')
                   then drop (length providerName + 1) line2 else line2)
      in if Contains line3 ''datasource'' \<or> Contains line3 ''data-source''
            \<or> Contains path ''/d/'' \<or> Contains path ''data_source''
         then Some (canonicalName providerName docTypeDatasource
                      (stripKeyword ''datasource-'' 11 line3))
         else if Contains line3 ''resource'' \<or> Contains path ''/r/''
         then Some (canonicalName providerName docTypeResource
                      (stripKeyword ''resource-'' 9 line3))
         else None)"

text \<open>
  The loop over the lines: a line without \<^verbatim>\<open>sidebar_current\<close> is passed over; of the
  others, \<^verbatim>\<open>parts[1][1 : len(parts[1])-1]\<close> is the value, and both the index and the
  slice can panic.
\<close>

fun classifyLines :: "string \<Rightarrow> string \<Rightarrow> string list \<Rightarrow> failure + (string \<times> docType)" where
  "classifyLines providerName path [] = Inl CouldNotFindSidebar"
| "classifyLines providerName path (line # rest) =
     (if \<not> Contains line ''sidebar_current'' then classifyLines providerName path rest
      else
        (case splitColonSpace [] line of
           p0 # p1 # ps \<Rightarrow>
             (if length p1 < 2 then Inl (Panic SliceBounds)
              else
                (case classifyValue providerName path (take (length p1 - 2) (drop 1 p1)) of
                   Some r \<Rightarrow> r
                 | None \<Rightarrow> classifyLines providerName path rest))
         | _ \<Rightarrow> Inl (Panic IndexOutOfRange)))"

definition classifyDoc :: "string \<Rightarrow> string \<Rightarrow> string \<Rightarrow> failure + (string \<times> docType)" where
  "classifyDoc providerName path content = classifyLines providerName path (scanLines [] content)"

section \<open>doc-checker: the documentation index\<close>

record documentation =
  Datasources :: "string \<rightharpoonup> string"
  Resources :: "string \<rightharpoonup> string"

definition candidate :: "string list \<Rightarrow> string \<Rightarrow> bool" where
  "candidate extensions path = list_ex (\<lambda>ext. HasSuffix path ext) extensions"

text \<open>
  The function \<^verbatim>\<open>filepath.Walk\<close> calls on every path under the root. The file system is
  the list of the paths in the order of the walk, each with its bytes, or \<open>None\<close> when it
  cannot be opened or read. An error returned here ends the walk and is the error of
  \<^verbatim>\<open>loadDocumentation\<close>; a fragment that is not classified is left out.
\<close>

definition visitDoc ::
  "string \<Rightarrow> string list \<Rightarrow> string \<times> string option \<Rightarrow> documentation \<Rightarrow> failure + documentation" where
  "visitDoc providerName extensions entry d =
     (if \<not> candidate extensions (fst entry) then Inr d
      else
        (case snd entry of
           None \<Rightarrow> Inl IOError
         | Some docset \<Rightarrow>
             (case classifyDoc providerName (fst entry) docset of
                Inl (Panic e) \<Rightarrow> Inl (Panic e)
              | Inl err \<Rightarrow> Inr d
              | Inr (docName, t) \<Rightarrow>
                  (if t = docTypeDatasource
                   then Inr (d\<lparr>Datasources := (Datasources d)(docName \<mapsto> docset)\<rparr>)
                   else Inr (d\<lparr>Resources := (Resources d)(docName \<mapsto> docset)\<rparr>)))))"

definition loadDocumentation ::
  "string \<Rightarrow> string list \<Rightarrow> (string \<times> string option) list \<Rightarrow> failure + documentation" where
  "loadDocumentation providerName extensions files =
     forEach (visitDoc providerName extensions) files
       \<lparr>Datasources = Map.empty, Resources = Map.empty\<rparr>"


section \<open>doc-checker: attributes against the documentation\<close>

text \<open>
  What \<^verbatim>\<open>verifyAttributes\<close> writes to the log: the line of \<^verbatim>\<open>log.Printf("Missing %q
  in docs of %q\n", expectedMarkup, schemaName)\<close>, and the lines of \<^verbatim>\<open>Debugf\<close>, which
  are written only when the debug flag is set. It writes no other line.
\<close>

datatype logLine =
    Missing string string
  | IgnoringArity string
  | IgnoringReturnType string
  | NoMatchingEntry string
  | TodoStructure string
  | IgnoringElement

definition Debugf :: "bool \<Rightarrow> logLine \<Rightarrow> logLine list" where
  "Debugf debug l = (if debug then [l] else [])"

text \<open>
  A piece of a run: what it wrote, and the panic that ended it, if any. \<open>runAll\<close> runs the
  pieces in order up to the first panic.
\<close>

fun runAll :: "('o list \<times> panic option) list \<Rightarrow> 'o list \<times> panic option" where
  "runAll [] = ([], None)"
| "runAll (r # rs) =
     (case snd r of
        Some e \<Rightarrow> (fst r, Some e)
      | None \<Rightarrow> (fst r @ fst (runAll rs), snd (runAll rs)))"

text \<open>
  The literal an attribute key stands for: the key itself when it is a literal, otherwise
  \<^verbatim>\<open>eltt.Key.(*ast.Ident).Obj.Decl.(*ast.ValueSpec).Values[0].(*ast.BasicLit)\<close>.
\<close>

definition keyLiteral :: "node \<Rightarrow> panic + string" where
  "keyLiteral k =
     (case k of
        BasicLit v \<Rightarrow> Inr v
      | Ident c ob \<Rightarrow>
          (case ob of
             None \<Rightarrow> Inl NilDereference
           | Some decl \<Rightarrow>
               (case decl of
                  ValueSpec values \<Rightarrow>
                    (case values of
                       [] \<Rightarrow> Inl IndexOutOfRange
                     | v # vs \<Rightarrow> (case v of LiteralInit l \<Rightarrow> Inr l | OtherInit \<Rightarrow> Inl TypeAssertion))
                | OtherDecl \<Rightarrow> Inl TypeAssertion))
      | _ \<Rightarrow> Inl TypeAssertion)"

text \<open>One element of the schema map: the body of the innermost loop.\<close>

definition verifyAttribute :: "bool \<Rightarrow> string \<Rightarrow> string \<Rightarrow> node \<Rightarrow> logLine list \<times> panic option" where
  "verifyAttribute debug schemaName docset elt =
     (case elt of
        KeyValueExpr k v \<Rightarrow>
          (case keyLiteral k of
             Inl e \<Rightarrow> ([], Some e)
           | Inr lit \<Rightarrow>
               (case decodeString lit of
                  Inl e \<Rightarrow> ([], Some e)
                | Inr n \<Rightarrow>
                    (let expectedMarkup = ''`'' @ n @ ''`''
                     in (if \<not> Contains docset expectedMarkup
                         then [Missing expectedMarkup schemaName] else [], None))))
      | _ \<Rightarrow> (Debugf debug IgnoringElement, None))"

definition verifySchema :: "bool \<Rightarrow> string \<Rightarrow> string \<Rightarrow> node list \<Rightarrow> logLine list \<times> panic option" where
  "verifySchema debug schemaName docset elts =
     runAll (map (verifyAttribute debug schemaName docset) elts)"

text \<open>One element of the literal the constructor returns: only \<^verbatim>\<open>Schema: ...\<close> is read.\<close>

definition verifyField :: "bool \<Rightarrow> string \<Rightarrow> string \<Rightarrow> node \<Rightarrow> logLine list \<times> panic option" where
  "verifyField debug schemaName docset elt =
     (case elt of
        KeyValueExpr k v \<Rightarrow>
          (case k of
             Ident key ob \<Rightarrow>
               (if key \<noteq> ''Schema'' then ([], None)
                else (case v of
                        CompositeLit ty elts \<Rightarrow> verifySchema debug schemaName docset elts
                      | _ \<Rightarrow> ([], None)))
           | _ \<Rightarrow> ([], Some TypeAssertion))
      | _ \<Rightarrow> ([], None))"

text \<open>
  The two loops over the catalog: every entry built by the function sets the schema name and
  the fragment, so the last match wins, and a name with no fragment in the index gives the
  nil fragment, which is empty. \<open>st\<close> is \<open>None\<close> while \<^verbatim>\<open>found\<close> is false.
\<close>

fun findEntry ::
  "resourceDefinition list \<Rightarrow> string \<Rightarrow> (string \<rightharpoonup> string) \<Rightarrow> (string \<times> string) option
     \<Rightarrow> (string \<times> string) option" where
  "findEntry [] f docs st = st"
| "findEntry (v # vs) f docs st =
     findEntry vs f docs
       (if fnc v = f then Some (name v, (case docs (name v) of None \<Rightarrow> [] | Some d \<Rightarrow> d)) else st)"

text \<open>The function's body, once its entry is found.\<close>

definition verifyBody :: "bool \<Rightarrow> string \<Rightarrow> string \<Rightarrow> string \<Rightarrow> node list option \<Rightarrow> logLine list \<times> panic option" where
  "verifyBody debug fname schemaName docset body =
     (case body of
        None \<Rightarrow> ([], Some NilDereference)
      | Some stmts \<Rightarrow>
          (case stmts of
             [] \<Rightarrow> ([], Some IndexOutOfRange)
           | stmt # more_stmts \<Rightarrow>
               (case stmt of
                  ReturnStmt results \<Rightarrow>
                    (case results of
                       [] \<Rightarrow> ([], Some IndexOutOfRange)
                     | r # more_results \<Rightarrow>
                         (case r of
                            UnaryExpr x \<Rightarrow>
                              (case x of
                                 CompositeLit ty elts \<Rightarrow>
                                   runAll (map (verifyField debug schemaName docset) elts)
                               | _ \<Rightarrow> ([], Some TypeAssertion))
                          | _ \<Rightarrow> ([], Some TypeAssertion)))
                | _ \<Rightarrow> (Debugf debug (TodoStructure fname), None))))"

text \<open>One declaration of the file: the body of the outer loop.\<close>

definition verifyDecl :: "bool \<Rightarrow> provider \<Rightarrow> documentation \<Rightarrow> node \<Rightarrow> logLine list \<times> panic option" where
  "verifyDecl debug prov docs decl =
     (case decl of
        FuncDecl fname ty body \<Rightarrow>
          (case ty of
             None \<Rightarrow> ([], None)
           | Some results \<Rightarrow>
               (case results of
                  None \<Rightarrow> ([], None)
                | Some fieldTypes \<Rightarrow>
                    (case fieldTypes of
                       [t] \<Rightarrow>
                         (case t of
                            StarExpr x \<Rightarrow>
                              (case x of
                                 SelectorExpr sx sel \<Rightarrow>
                                   (if sel \<noteq> ''Resource'' then ([], None)
                                    else
                                      (case sx of
                                         Ident pkg ob \<Rightarrow>
                                           (if pkg \<noteq> ''schema'' then ([], None)
                                            else
                                              (case findEntry (resources prov) fname (Resources docs)
                                                      (findEntry (datasources prov) fname (Datasources docs) None) of
                                                 None \<Rightarrow> (Debugf debug (NoMatchingEntry fname), None)
                                               | Some found \<Rightarrow>
                                                   verifyBody debug fname (fst found) (snd found) body))
                                       | _ \<Rightarrow> ([], Some TypeAssertion)))
                               | _ \<Rightarrow> ([], None))
                          | _ \<Rightarrow> (Debugf debug (IgnoringReturnType fname), None))
                     | _ \<Rightarrow> (Debugf debug (IgnoringArity fname), None))))
      | _ \<Rightarrow> ([], None))"

text \<open>
  \<^verbatim>\<open>verifyAttributes\<close>, on the declarations of the parsed file (a file that does not
  parse is logged and left).
\<close>

definition verifyAttributes :: "bool \<Rightarrow> provider \<Rightarrow> documentation \<Rightarrow> node list \<Rightarrow> logLine list \<times> panic option" where
  "verifyAttributes debug prov docs decls = runAll (map (verifyDecl debug prov docs) decls)"

section \<open>schema-checker\<close>

subsection \<open>Walking the tree\<close>

text \<open>
  The children of a node, in the order \<^verbatim>\<open>ast.Walk\<close> walks them. Of a function
  declaration these are its name, its result types and the statements of its body: the nodes
  between (the function type, the field lists and fields, the block) are none of the node
  types a visitor of this program tests for, and every visitor returns itself on them.
\<close>

fun children :: "node \<Rightarrow> node list" where
  "children (Ident n ob) = []"
| "children (BasicLit v) = []"
| "children (CompositeLit ty elts) = (case ty of None \<Rightarrow> [] | Some t \<Rightarrow> [t]) @ elts"
| "children (KeyValueExpr k v) = [k, v]"
| "children (CallExpr f args) = f # args"
| "children (UnaryExpr x) = [x]"
| "children (StarExpr x) = [x]"
| "children (SelectorExpr x sel) = [x, Ident sel None]"
| "children (ReturnStmt results) = results"
| "children (FuncDecl fname ty body) =
     Ident fname None
     # (case ty of Some (Some fieldTypes) \<Rightarrow> fieldTypes | _ \<Rightarrow> [])
     @ (case body of Some stmts \<Rightarrow> stmts | None \<Rightarrow> [])"
| "children (OtherNode ns) = ns"

text \<open>
  What \<^verbatim>\<open>Visit\<close> returns: nil (\<open>Stop\<close>: the children are not walked), a visitor for the
  children, or nothing, when it panics.
\<close>

datatype 'w step = Stop | Descend 'w | Abort panic


text \<open>
  \<^verbatim>\<open>ast.Walk(v, node)\<close>: it calls \<^verbatim>\<open>v.Visit(node)\<close> and, unless that returns nil,
  walks the children with the visitor returned. (Its last call, \<^verbatim>\<open>Visit(nil)\<close>, does
  nothing in any visitor of this program.) A visitor is a function of a visitor state
  \<open>w\<close> and the node, which gives what the visit writes and the step to take.
\<close>

function Walk :: "('w \<Rightarrow> node \<Rightarrow> 'o list \<times> 'w step) \<Rightarrow> 'w \<Rightarrow> node \<Rightarrow> 'o list \<times> panic option" where
  "Walk visit w n =
     (case snd (visit w n) of
        Stop \<Rightarrow> (fst (visit w n), None)
      | Abort e \<Rightarrow> (fst (visit w n), Some e)
      | Descend w' \<Rightarrow>
          runAll ((fst (visit w n), None) # map (Walk visit w') (children n)))"
  by pat_completeness auto
termination
proof (relation "measure (\<lambda>(visit, w, n). size n)")
  show "wf (measure (\<lambda>(visit :: 'w \<Rightarrow> node \<Rightarrow> 'o list \<times> 'w step, w :: 'w, n). size n))"
    by simp
next
  fix visit :: "'w \<Rightarrow> node \<Rightarrow> 'o list \<times> 'w step" and w w' :: 'w and n c :: node
  assume c: "c \<in> set (children n)"
  have member: "size x \<le> size_list size ns" if "x \<in> set ns" for x :: node and ns
    using that by (induction ns) auto
  from c have "size c < size n"
    by (cases n) (auto split: option.splits dest!: member)
  then show "((visit, w', c), (visit, w, n)) \<in> measure (\<lambda>(visit, w, n). size n)"
    by simp
qed

declare Walk.simps [simp del]

subsection \<open>The checks on one attribute\<close>

text \<open>
  The error a check returns. The message of \<open>MissingDescription a\<close> is
  \<^verbatim>\<open>a: Missing Description attribute\<close>, that of \<open>ReservedName a\<close> is
  \<^verbatim>\<open>a: attribute name is reserved\<close>, and that of \<open>DanglingConflict a [t1, ..., tn]\<close> is
  \<^verbatim>\<open>a: conflict target "t1" does not exist, ..., conflict target "tn" does not exist\<close>.
  A check gets the attribute name, the elements \<^verbatim>\<open>def.Elts\<close> of the attribute's literal,
  and the schema node.
\<close>

datatype violation =
    MissingDescription string
  | ReservedName string
  | DanglingConflict string "string list"

type_synonym checkFn = "string \<Rightarrow> node list \<Rightarrow> node \<Rightarrow> panic + violation option"

text \<open>\<^verbatim>\<open>elt.(*ast.KeyValueExpr).Key.(*ast.Ident).Name\<close>\<close>

definition propertyName :: "node \<Rightarrow> panic + string" where
  "propertyName elt =
     (case elt of
        KeyValueExpr k v \<Rightarrow> (case k of Ident pname ob \<Rightarrow> Inr pname | _ \<Rightarrow> Inl TypeAssertion)
      | _ \<Rightarrow> Inl TypeAssertion)"

definition descriptionStep :: "node \<Rightarrow> bool \<Rightarrow> panic + bool" where
  "descriptionStep elt hasDescription =
     (case propertyName elt of
        Inl e \<Rightarrow> Inl e
      | Inr pname \<Rightarrow> Inr (hasDescription \<or> pname = ''Description''))"

definition checkDescription :: checkFn where
  "checkDescription attributeName elts schema =
     (case forEach descriptionStep elts False of
        Inl e \<Rightarrow> Inl e
      | Inr hasDescription \<Rightarrow>
          (if hasDescription then Inr None else Inr (Some (MissingDescription attributeName))))"

definition checkAttributeName :: checkFn where
  "checkAttributeName attributeName elts schema =
     (if attributeName = ''id'' then Inr (Some (ReservedName attributeName)) else Inr None)"

text \<open>
  \<^verbatim>\<open>attributeCollector\<close>: at a key-value node whose key is a literal it appends the key
  without its first and last byte; it walks into no key-value node.
\<close>

definition attributeCollector :: "unit \<Rightarrow> node \<Rightarrow> string list \<times> unit step" where
  "attributeCollector u n =
     (case n of
        KeyValueExpr k v \<Rightarrow>
          (case k of
             BasicLit s \<Rightarrow>
               (if length s < 2 then ([], Abort SliceBounds)
                else ([take (length s - 2) (drop 1 s)], Stop))
           | _ \<Rightarrow> ([], Stop))
      | _ \<Rightarrow> ([], Descend ()))"

definition collectAttributeNames :: "node \<Rightarrow> panic + string list" where
  "collectAttributeNames schema =
     (case Walk attributeCollector () schema of
        (names, None) \<Rightarrow> Inr names
      | (names, Some e) \<Rightarrow> Inl e)"

text \<open>One element of the list a \<^verbatim>\<open>ConflictsWith\<close> property holds.\<close>

definition conflictTarget :: "node \<Rightarrow> string list \<Rightarrow> panic + string list" where
  "conflictTarget conflict conflicts =
     (case conflict of
        BasicLit v \<Rightarrow>
          (if length v < 2 then Inl SliceBounds
           else Inr (conflicts @ [take (length v - 2) (drop 1 v)]))
      | _ \<Rightarrow> Inl TypeAssertion)"

definition conflictStep :: "node \<Rightarrow> string list \<Rightarrow> panic + string list" where
  "conflictStep elt conflicts =
     (case propertyName elt of
        Inl e \<Rightarrow> Inl e
      | Inr pname \<Rightarrow>
          (if pname \<noteq> ''ConflictsWith'' then Inr conflicts
           else
             (case elt of
                KeyValueExpr k v \<Rightarrow>
                  (case v of
                     CompositeLit ty targets \<Rightarrow> forEach conflictTarget targets conflicts
                   | _ \<Rightarrow> Inl TypeAssertion)
              | _ \<Rightarrow> Inl TypeAssertion)))"

definition checkConflictsWith :: checkFn where
  "checkConflictsWith attributeName elts schema =
     (case forEach conflictStep elts [] of
        Inl e \<Rightarrow> Inl e
      | Inr conflicts \<Rightarrow>
          (if conflicts = [] then Inr None
           else
             (case collectAttributeNames schema of
                Inl e \<Rightarrow> Inl e
              | Inr attributeNames \<Rightarrow>
                  (let errors = filter (\<lambda>conflict. conflict \<notin> set attributeNames) conflicts
                   in if errors = [] then Inr None
                      else Inr (Some (DanglingConflict attributeName errors))))))"

definition checks :: "checkFn list" where
  "checks = [checkDescription, checkAttributeName, checkConflictsWith]"

text \<open>
  The loop over \<open>checks\<close> in \<^verbatim>\<open>attributeChecker\<close>: each error is printed (with the file
  and the line, which are left out here) before the next check runs.
\<close>

fun runChecks :: "checkFn list \<Rightarrow> string \<Rightarrow> node list \<Rightarrow> node \<Rightarrow> violation list \<times> panic option" where
  "runChecks [] a elts schema = ([], None)"
| "runChecks (check # cs) a elts schema =
     (case check a elts schema of
        Inl e \<Rightarrow> ([], Some e)
      | Inr err \<Rightarrow>
          runAll [((case err of None \<Rightarrow> [] | Some v \<Rightarrow> [v]), None), runChecks cs a elts schema])"

subsection \<open>The visitors\<close>

datatype walker = schemaFinder | schemaResourceChecker | schemaChecker | attributeChecker node

fun Visit :: "walker \<Rightarrow> node \<Rightarrow> violation list \<times> walker step" where
  "Visit schemaFinder n =
     (case n of
        FuncDecl fname ty body \<Rightarrow>
          (case ty of
             None \<Rightarrow> ([], Abort NilDereference)
           | Some results \<Rightarrow>
               (case results of
                  None \<Rightarrow> ([], Stop)
                | Some fieldTypes \<Rightarrow>
                    (case fieldTypes of
                       [t] \<Rightarrow>
                         (case t of
                            StarExpr x \<Rightarrow>
                              (case x of
                                 SelectorExpr sx sel \<Rightarrow>
                                   (if sel \<noteq> ''Resource'' then ([], Stop)
                                    else
                                      (case sx of
                                         Ident pkg ob \<Rightarrow>
                                           (if pkg \<noteq> ''schema'' then ([], Stop)
                                            else ([], Descend schemaResourceChecker))
                                       | _ \<Rightarrow> ([], Abort TypeAssertion)))
                               | _ \<Rightarrow> ([], Stop))
                          | _ \<Rightarrow> ([], Stop))
                     | _ \<Rightarrow> ([], Stop))))
      | _ \<Rightarrow> ([], Descend schemaFinder))"
| "Visit schemaResourceChecker n =
     (case n of
        KeyValueExpr k v \<Rightarrow>
          (case k of
             Ident key ob \<Rightarrow>
               (if key \<noteq> ''Schema'' then ([], Descend schemaResourceChecker)
                else ([], Descend schemaChecker))
           | _ \<Rightarrow> ([], Descend schemaResourceChecker))
      | _ \<Rightarrow> ([], Descend schemaResourceChecker))"
| "Visit schemaChecker n =
     (case n of
        CompositeLit ty elts \<Rightarrow>
          (case ty of
             None \<Rightarrow> ([], Descend schemaChecker)
           | Some t \<Rightarrow> ([], Descend (attributeChecker n)))
      | _ \<Rightarrow> ([], Descend schemaChecker))"
| "Visit (attributeChecker schema) n =
     (case n of
        KeyValueExpr k v \<Rightarrow>
          (case k of
             BasicLit lit \<Rightarrow>
               (case v of
                  CompositeLit ty elts \<Rightarrow>
                    (case snd (runChecks checks lit elts schema) of
                       Some e \<Rightarrow> (fst (runChecks checks lit elts schema), Abort e)
                     | None \<Rightarrow>
                         (fst (runChecks checks lit elts schema), Descend (attributeChecker schema)))
                | _ \<Rightarrow> ([], Descend (attributeChecker schema)))
           | _ \<Rightarrow> ([], Stop))
      | _ \<Rightarrow> ([], Descend (attributeChecker schema)))"

text \<open>\<^verbatim>\<open>checkSchema\<close>, on the parsed file.\<close>

definition checkSchema :: "node \<Rightarrow> violation list \<times> panic option" where
  "checkSchema f = Walk Visit schemaFinder f"

section \<open>Shapes of the input, for the statements\<close>

subsection \<open>The registration declaration\<close>

text \<open>
  \<open>isProviderFunc d\<close>: the declaration \<open>d\<close> is a function named \<^verbatim>\<open>Provider\<close>.
  \<open>isReturn s\<close>: the statement \<open>s\<close> is a return statement. \<open>fieldKey\<close> is the name of a
  named field of a struct literal. \<open>isEntry e (n, f)\<close>: the map entry \<open>e\<close> is
  \<^verbatim>\<open>"n": f(...)\<close>, and \<open>mkDef (n, f)\<close> is the catalog entry of the declared name \<open>n\<close>
  and the constructor \<open>f\<close>. \<open>fieldEntries key e\<close> are the entries of the map literal the
  field \<open>e\<close> holds when it is named \<open>key\<close>, and \<open>fieldOk e\<close> says that \<open>e\<close> is a named
  field which, when it is one of the two maps, holds a literal.
\<close>

definition isProviderFunc :: "node \<Rightarrow> bool" where
  "isProviderFunc d = (case d of FuncDecl fname ty body \<Rightarrow> fname = ''Provider'' | _ \<Rightarrow> False)"

definition isReturn :: "node \<Rightarrow> bool" where
  "isReturn s = (case s of ReturnStmt rs \<Rightarrow> True | _ \<Rightarrow> False)"

definition fieldKey :: "node \<Rightarrow> string option" where
  "fieldKey e = (case e of KeyValueExpr (Ident k ob) v \<Rightarrow> Some k | _ \<Rightarrow> None)"

definition isEntry :: "node \<Rightarrow> string \<times> string \<Rightarrow> bool" where
  "isEntry e d = (case e of
      KeyValueExpr (BasicLit s) (CallExpr (Ident g ob) args) \<Rightarrow>
        s = CHR 0x22 # fst d @ [CHR 0x22] \<and> g = snd d
    | _ \<Rightarrow> False)"

definition mkDef :: "string \<times> string \<Rightarrow> resourceDefinition" where
  "mkDef d = \<lparr>name = fst d, fnc = snd d\<rparr>"

definition fieldEntries :: "string \<Rightarrow> node \<Rightarrow> node list" where
  "fieldEntries key e = (case e of KeyValueExpr (Ident k ob) (CompositeLit ty elts) \<Rightarrow> if k = key then elts else [] | _ \<Rightarrow> [])"

definition fieldOk :: "node \<Rightarrow> bool" where
  "fieldOk e = (case e of KeyValueExpr (Ident k ob) v \<Rightarrow>
      (k = ''ResourcesMap'' \<or> k = ''DataSourcesMap'' \<longrightarrow> (case v of CompositeLit ty elts \<Rightarrow> True | _ \<Rightarrow> False)) | _ \<Rightarrow> False)"


subsection \<open>Attributes and their properties\<close>

text \<open>
  \<open>isProperty e k\<close>: the element \<open>e\<close> of an attribute's literal is \<^verbatim>\<open>k: value\<close>.
  \<open>isTarget e t\<close>: the element \<open>e\<close> of a \<^verbatim>\<open>ConflictsWith\<close> list is the literal
  \<^verbatim>\<open>"t"\<close>. \<open>constructorDecl f attrs\<close> is the declaration
  \<^verbatim>\<open>func f() *schema.Resource { return &schema.Resource{Schema:
  map[string]*schema.Schema{attrs}} }\<close>, \<open>stringAttribute k\<close> the attribute
  \<^verbatim>\<open>k: {Type: schema.TypeString}\<close>.
  \<open>plainType t\<close>: the type expression \<open>t\<close> is built from identifiers, selectors, pointers
  and other type nodes (a map type, an array type), so it holds no literal.
  \<open>isAttribute e k\<close>: the entry \<open>e\<close> of a schema literal is \<^verbatim>\<open>key: value\<close>, where
  \<open>k = Some n\<close> when the key is the literal \<^verbatim>\<open>"n"\<close> and \<open>k = None\<close> when the key is not
  a literal; the value is any expression, a nested schema included. \<open>literalKeys\<close> are the
  names among such keys. \<open>nestedSchema\<close> is the schema of the attributes \<^verbatim>\<open>"a"\<close>, with
  \<^verbatim>\<open>ConflictsWith: []string{"inner"}\<close>, and \<^verbatim>\<open>"block"\<close>, a list whose
  \<^verbatim>\<open>Elem\<close> is a resource with the schema of the one attribute \<^verbatim>\<open>"inner"\<close>.
\<close>

definition isProperty :: "node \<Rightarrow> string \<Rightarrow> bool" where
  "isProperty e k = (case e of KeyValueExpr (Ident k' ob) v \<Rightarrow> k' = k | _ \<Rightarrow> False)"

definition isTarget :: "node \<Rightarrow> string \<Rightarrow> bool" where
  "isTarget e t = (case e of BasicLit s \<Rightarrow> s = CHR 0x22 # t @ [CHR 0x22] | _ \<Rightarrow> False)"

definition stringSchemaType :: node where
  "stringSchemaType = OtherNode [Ident ''string'' None, StarExpr (SelectorExpr (Ident ''schema'' None) ''Schema'')]"

definition constructorDecl :: "string \<Rightarrow> node list \<Rightarrow> node" where
  "constructorDecl f attrs =
     FuncDecl f (Some (Some [StarExpr (SelectorExpr (Ident ''schema'' None) ''Resource'')]))
       (Some [ReturnStmt [UnaryExpr (CompositeLit (Some (SelectorExpr (Ident ''schema'' None) ''Resource''))
          [KeyValueExpr (Ident ''Schema'' None) (CompositeLit (Some stringSchemaType) attrs)])]])"

definition stringAttribute :: "node \<Rightarrow> node" where
  "stringAttribute k =
     KeyValueExpr k (CompositeLit None
       [KeyValueExpr (Ident ''Type'' None) (SelectorExpr (Ident ''schema'' None) ''TypeString'')])"

fun plainType :: "node \<Rightarrow> bool" where
  "plainType (Ident n ob) = True"
| "plainType (StarExpr x) = plainType x"
| "plainType (SelectorExpr x sel) = plainType x"
| "plainType (OtherNode ns) = (\<forall>n \<in> set ns. plainType n)"
| "plainType n = False"

definition isAttribute :: "node \<Rightarrow> string option \<Rightarrow> bool" where
  "isAttribute e k =
     (case e of
        KeyValueExpr key v \<Rightarrow>
          (case key of
             BasicLit s \<Rightarrow> (case k of Some n \<Rightarrow> s = CHR 0x22 # n @ [CHR 0x22] | None \<Rightarrow> False)
           | _ \<Rightarrow> k = None)
      | _ \<Rightarrow> False)"

definition literalKeys :: "string option list \<Rightarrow> string list" where
  "literalKeys keys = concat (map (\<lambda>k. case k of Some n \<Rightarrow> [n] | None \<Rightarrow> []) keys)"

definition nestedSchema :: node where
  "nestedSchema =
     CompositeLit (Some stringSchemaType)
       [KeyValueExpr (BasicLit (CHR 0x22 # ''a'' @ [CHR 0x22]))
          (CompositeLit None
             [KeyValueExpr (Ident ''Type'' None) (SelectorExpr (Ident ''schema'' None) ''TypeString''),
              KeyValueExpr (Ident ''ConflictsWith'' None)
                (CompositeLit (Some (OtherNode [Ident ''string'' None]))
                   [BasicLit (CHR 0x22 # ''inner'' @ [CHR 0x22])])]),
        KeyValueExpr (BasicLit (CHR 0x22 # ''block'' @ [CHR 0x22]))
          (CompositeLit None
             [KeyValueExpr (Ident ''Type'' None) (SelectorExpr (Ident ''schema'' None) ''TypeList''),
              KeyValueExpr (Ident ''Elem'' None)
                (UnaryExpr (CompositeLit (Some (SelectorExpr (Ident ''schema'' None) ''Resource''))
                   [KeyValueExpr (Ident ''Schema'' None)
                      (CompositeLit (Some stringSchemaType)
                         [stringAttribute (BasicLit (CHR 0x22 # ''inner'' @ [CHR 0x22]))])]))])]"

subsection \<open>Documentation fragments\<close>

text \<open>
  \<open>fragment v body\<close> is a fragment whose front matter gives \<^verbatim>\<open>sidebar_current\<close> the
  value \<open>v\<close>. \<open>conventionalValue providerName t suffix\<close> is the front-matter value of the
  convention, \<^verbatim>\<open>docs-{provider}-{kind}-{suffix}\<close>, and \<open>normalise\<close> is what
  \<^verbatim>\<open>classifyDoc\<close> does to the name in the end. \<open>indexOf t d\<close> is the map of the kind
  \<open>t\<close> in the index \<open>d\<close>, \<open>classifiesTo providerName extensions n t entry\<close> says that the
  walk classifies the file \<open>entry\<close> to the name \<open>n\<close> and the kind \<open>t\<close>, \<open>docEffect\<close> is
  what visiting a file does whatever the index is (an error, nothing, or storing a fragment
  under a kind and a name), and \<open>store\<close> is that storing. \<open>docExtensions\<close> are the
  extensions \<^verbatim>\<open>main\<close> passes to \<^verbatim>\<open>loadDocumentation\<close>.
\<close>

definition kindKeyword :: "docType \<Rightarrow> string" where
  "kindKeyword t = (if t = docTypeDatasource then ''datasource'' else ''resource'')"

definition conventionalValue :: "string \<Rightarrow> docType \<Rightarrow> string \<Rightarrow> string" where
  "conventionalValue providerName t suffix = ''docs-'' @ providerName @ ''-'' @ kindKeyword t @ ''-'' @ suffix"

definition normalise :: "string \<Rightarrow> string" where
  "normalise n = Replace (Replace n CHR '' '' CHR ''_'') CHR ''-'' CHR ''_''"

definition indexOf :: "docType \<Rightarrow> documentation \<Rightarrow> string \<rightharpoonup> string" where
  "indexOf t d = (if t = docTypeDatasource then Datasources d else Resources d)"

definition classifiesTo :: "string \<Rightarrow> string list \<Rightarrow> string \<Rightarrow> docType \<Rightarrow> string \<times> string option \<Rightarrow> bool" where
  "classifiesTo providerName extensions n t entry =
     (candidate extensions (fst entry) \<and>
      (case snd entry of
         None \<Rightarrow> False
       | Some docset \<Rightarrow> classifyDoc providerName (fst entry) docset = Inr (n, t)))"

definition store :: "docType \<Rightarrow> string \<Rightarrow> string \<Rightarrow> documentation \<Rightarrow> documentation" where
  "store t k v d =
     (if t = docTypeDatasource then d\<lparr>Datasources := (Datasources d)(k \<mapsto> v)\<rparr>
      else d\<lparr>Resources := (Resources d)(k \<mapsto> v)\<rparr>)"

definition docEffect ::
  "string \<Rightarrow> string list \<Rightarrow> string \<times> string option \<Rightarrow> failure + (docType \<times> string \<times> string) option" where
  "docEffect providerName extensions entry =
     (if \<not> candidate extensions (fst entry) then Inr None
      else
        (case snd entry of
           None \<Rightarrow> Inl IOError
         | Some docset \<Rightarrow>
             (case classifyDoc providerName (fst entry) docset of
                Inl (Panic e) \<Rightarrow> Inl (Panic e)
              | Inl err \<Rightarrow> Inr None
              | Inr (docName, t) \<Rightarrow> Inr (Some (t, docName, docset)))))"

definition fragment :: "string \<Rightarrow> string \<Rightarrow> string" where
  "fragment sidebar body =
     ''---'' @ [CHR 0x0A] @ ''layout: '' @ [CHR 0x22] @ ''acme'' @ [CHR 0x22] @ [CHR 0x0A]
     @ ''sidebar_current: '' @ [CHR 0x22] @ sidebar @ [CHR 0x22] @ [CHR 0x0A]
     @ ''---'' @ [CHR 0x0A] @ body"

definition docExtensions :: "string list" where
  "docExtensions = [''md'', ''markdown'', ''html.md'', ''html.markdown'']"


section \<open>Properties\<close>

subsection \<open>The provider catalog\<close>

lemma forEach_append:
  "forEach f (xs @ ys) s = (case forEach f xs s of Inl e \<Rightarrow> Inl e | Inr s' \<Rightarrow> forEach f ys s')"
  by (induction xs arbitrary: s) (auto split: sum.splits)

lemma forEach_skip: "(\<And>x s. x \<in> set xs \<Longrightarrow> f x s = Inr s) \<Longrightarrow> forEach f xs s = Inr s"
  by (induction xs arbitrary: s) auto

lemma decodeString_quoted: "decodeString (q # n @ [q']) = Inr n"
  by (simp add: decodeString_def)

lemma resourceEntry_isEntry: "isEntry e d \<Longrightarrow> resourceEntry e = Inr (mkDef d)"
  by (auto simp: isEntry_def resourceEntry_def mkDef_def decodeString_quoted split: node.splits)

lemma appendEntries_ok:
  "list_all2 isEntry elts ds \<Longrightarrow> forEach appendEntry elts acc = Inr (acc @ map mkDef ds)"
proof (induction elts ds arbitrary: acc rule: list_all2_induct)
  case Nil
  then show ?case by simp
next
  case (Cons e d elts ds)
  then show ?case by (simp add: appendEntry_def resourceEntry_isEntry)
qed

lemma providerFields_ok:
  "list_all fieldOk flds \<Longrightarrow>
   list_all2 isEntry (concat (map (fieldEntries ''ResourcesMap'') flds)) rs \<Longrightarrow>
   list_all2 isEntry (concat (map (fieldEntries ''DataSourcesMap'') flds)) ds \<Longrightarrow>
   forEach providerField flds p =
     Inr (p\<lparr>datasources := datasources p @ map mkDef ds, resources := resources p @ map mkDef rs\<rparr>)"
proof (induction flds arbitrary: p rs ds)
  case Nil
  then show ?case by simp
next
  case (Cons e flds)
  from Cons.prems(1) have ok: "fieldOk e" and oks: "list_all fieldOk flds" by simp_all
  from ok obtain k ob v where e: "e = KeyValueExpr (Ident k ob) v"
    by (auto simp: fieldOk_def split: node.splits)
  from Cons.prems(2) obtain rs1 rs2 where rs: "rs = rs1 @ rs2"
    and r1: "list_all2 isEntry (fieldEntries ''ResourcesMap'' e) rs1"
    and r2: "list_all2 isEntry (concat (map (fieldEntries ''ResourcesMap'') flds)) rs2"
    by (auto simp: list_all2_append1)
  from Cons.prems(3) obtain ds1 ds2 where ds: "ds = ds1 @ ds2"
    and d1: "list_all2 isEntry (fieldEntries ''DataSourcesMap'' e) ds1"
    and d2: "list_all2 isEntry (concat (map (fieldEntries ''DataSourcesMap'') flds)) ds2"
    by (auto simp: list_all2_append1)
  have step: "providerField e p =
      Inr (p\<lparr>datasources := datasources p @ map mkDef ds1, resources := resources p @ map mkDef rs1\<rparr>)"
  proof (cases "k = ''ResourcesMap''")
    case True
    with ok e obtain ty elts where v: "v = CompositeLit ty elts"
      by (auto simp: fieldOk_def split: node.splits)
    from True e v d1 have "ds1 = []" by (simp add: fieldEntries_def)
    moreover from True e v r1 have "list_all2 isEntry elts rs1" by (simp add: fieldEntries_def)
    ultimately show ?thesis using True e v
      by (simp add: providerField_def appendEntries_ok)
  next
    case False
    note notR = this
    show ?thesis
    proof (cases "k = ''DataSourcesMap''")
      case True
      with ok e obtain ty elts where v: "v = CompositeLit ty elts"
        by (auto simp: fieldOk_def split: node.splits)
      from True e v r1 have "rs1 = []" by (simp add: fieldEntries_def)
      moreover from True e v d1 have "list_all2 isEntry elts ds1" by (simp add: fieldEntries_def)
      ultimately show ?thesis using True e v
        by (simp add: providerField_def appendEntries_ok)
    next
      case False
      from notR False e r1 have "rs1 = []" by (simp add: fieldEntries_def split: node.splits)
      moreover from notR False e d1 have "ds1 = []" by (simp add: fieldEntries_def split: node.splits)
      ultimately show ?thesis using notR False e by (simp add: providerField_def)
    qed
  qed
  show ?case
    by (simp add: step Cons.IH [OF oks r2 d2] rs ds)
qed


lemma concat_map_filter_nil:
  "(\<And>x. x \<in> set xs \<Longrightarrow> \<not> P x \<Longrightarrow> f x = []) \<Longrightarrow> concat (map f (filter P xs)) = concat (map f xs)"
  by (induction xs) auto

lemma fieldEntries_other: "fieldKey e \<noteq> Some key \<Longrightarrow> fieldEntries key e = []"
  by (auto simp: fieldKey_def fieldEntries_def split: node.splits)

lemma fieldEntries_single:
  assumes "filter (\<lambda>e. fieldKey e = Some key) flds = [KeyValueExpr (Ident key ob) (CompositeLit ty elts)]"
  shows "concat (map (fieldEntries key) flds) = elts"
proof -
  have "concat (map (fieldEntries key) flds)
      = concat (map (fieldEntries key) (filter (\<lambda>e. fieldKey e = Some key) flds))"
    by (rule concat_map_filter_nil [symmetric]) (simp add: fieldEntries_other)
  also have "\<dots> = elts" by (simp add: assms fieldEntries_def)
  finally show ?thesis .
qed

lemma fieldKey_SomeD: "fieldKey e \<noteq> None \<Longrightarrow> \<exists>k ob v. e = KeyValueExpr (Ident k ob) v"
proof (cases e)
  case (KeyValueExpr k v)
  assume "fieldKey e \<noteq> None"
  with KeyValueExpr show ?thesis by (cases k) (simp_all add: fieldKey_def)
qed (simp_all add: fieldKey_def)

lemma fieldOk_single:
  assumes keyed: "list_all (\<lambda>e. fieldKey e \<noteq> None) flds"
    and r: "filter (\<lambda>e. fieldKey e = Some ''ResourcesMap'') flds = [KeyValueExpr (Ident ''ResourcesMap'' o1) (CompositeLit t1 relts)]"
    and d: "filter (\<lambda>e. fieldKey e = Some ''DataSourcesMap'') flds = [KeyValueExpr (Ident ''DataSourcesMap'' o2) (CompositeLit t2 delts)]"
  shows "list_all fieldOk flds"
proof -
  have "fieldOk e" if e: "e \<in> set flds" for e
  proof -
    from keyed e have "fieldKey e \<noteq> None" by (simp add: list_all_iff)
    then obtain k ob v where ekv: "e = KeyValueExpr (Ident k ob) v"
      using fieldKey_SomeD by blast
    show ?thesis
    proof (cases "k = ''ResourcesMap''")
      case True
      with e ekv have "e \<in> set (filter (\<lambda>e. fieldKey e = Some ''ResourcesMap'') flds)"
        by (simp add: fieldKey_def)
      then show ?thesis by (simp add: r fieldOk_def)
    next
      case False
      note notR = this
      show ?thesis
      proof (cases "k = ''DataSourcesMap''")
        case True
        with e ekv have "e \<in> set (filter (\<lambda>e. fieldKey e = Some ''DataSourcesMap'') flds)"
          by (simp add: fieldKey_def)
        then show ?thesis by (simp add: d fieldOk_def)
      next
        case False
        with notR ekv show ?thesis by (simp add: fieldOk_def)
      qed
    qed
  qed
  then show ?thesis by (simp add: list_all_iff)
qed

lemma providerDecls_skip:
  "\<not> list_ex isProviderFunc ds \<Longrightarrow> forEach providerDecl ds p = Inr p"
  by (rule forEach_skip)
     (auto simp: list_ex_iff isProviderFunc_def providerDecl_def split: node.splits)

lemma providerStmts_skip:
  "\<not> list_ex isReturn ss \<Longrightarrow> forEach providerStmt ss p = Inr p"
  by (rule forEach_skip)
     (auto simp: list_ex_iff isReturn_def providerStmt_def split: node.splits)

lemma parseProviderDefinition_shape:
  assumes decls: "decls = pre @ [FuncDecl ''Provider'' fty (Some body)] @ post"
    and others: "\<not> list_ex isProviderFunc (pre @ post)"
    and body: "body = s1 @ [ReturnStmt (UnaryExpr (CompositeLit sty flds) # rest)] @ s2"
    and noret: "\<not> list_ex isReturn (s1 @ s2)"
    and keyed: "list_all (\<lambda>e. fieldKey e \<noteq> None) flds"
    and rmap: "filter (\<lambda>e. fieldKey e = Some ''ResourcesMap'') flds =
                 [KeyValueExpr (Ident ''ResourcesMap'' o1) (CompositeLit t1 relts)]"
    and dmap: "filter (\<lambda>e. fieldKey e = Some ''DataSourcesMap'') flds =
                 [KeyValueExpr (Ident ''DataSourcesMap'' o2) (CompositeLit t2 delts)]"
    and rs: "list_all2 isEntry relts rs"
    and ds: "list_all2 isEntry delts ds"
  shows "parseProviderDefinition decls = Inr \<lparr>datasources = map mkDef ds, resources = map mkDef rs\<rparr>"
proof -
  let ?init = "\<lparr>datasources = [], resources = []\<rparr>"
  let ?res = "\<lparr>datasources = map mkDef ds, resources = map mkDef rs\<rparr>"
  from others have pre: "\<not> list_ex isProviderFunc pre" and post: "\<not> list_ex isProviderFunc post"
    by (simp_all add: list_ex_iff)
  from noret have n1: "\<not> list_ex isReturn s1" and n2: "\<not> list_ex isReturn s2"
    by (simp_all add: list_ex_iff)
  have ok: "list_all fieldOk flds" by (rule fieldOk_single [OF keyed rmap dmap])
  have "forEach providerField flds ?init = Inr ?res"
    using providerFields_ok [OF ok, where rs = rs and ds = ds and p = ?init] rs ds
    by (simp add: fieldEntries_single [OF rmap] fieldEntries_single [OF dmap])
  then have "forEach providerStmt body ?init = Inr ?res"
    by (simp add: body forEach_append providerStmts_skip [OF n1] providerStmts_skip [OF n2]
        providerStmt_def)
  then show ?thesis
    by (simp add: parseProviderDefinition_def decls forEach_append
        providerDecls_skip [OF pre] providerDecls_skip [OF post] providerDecl_def)
qed

text \<open>
  C1. A file with one function \<open>Provider\<close>, whose body has one return statement, of the
  address of a literal with named fields, among them one \<open>ResourcesMap\<close> with the entries
  \<open>relts\<close> and one \<open>DataSourcesMap\<close> with the entries \<open>delts\<close>, every entry of the form
  \<^verbatim>\<open>"name": constructor(...)\<close>: the catalog returned has one resource entry for each
  element of \<open>relts\<close> and one datasource entry for each element of \<open>delts\<close>, each pair in
  the list of its kind, in the order of the literal.
\<close>

theorem parseProviderDefinition_catalog:
  assumes "decls = pre @ [FuncDecl ''Provider'' fty (Some body)] @ post"
    and "\<not> list_ex isProviderFunc (pre @ post)"
    and "body = s1 @ [ReturnStmt (UnaryExpr (CompositeLit sty flds) # rest)] @ s2"
    and "\<not> list_ex isReturn (s1 @ s2)"
    and "list_all (\<lambda>e. fieldKey e \<noteq> None) flds"
    and "filter (\<lambda>e. fieldKey e = Some ''ResourcesMap'') flds =
           [KeyValueExpr (Ident ''ResourcesMap'' o1) (CompositeLit t1 relts)]"
    and "filter (\<lambda>e. fieldKey e = Some ''DataSourcesMap'') flds =
           [KeyValueExpr (Ident ''DataSourcesMap'' o2) (CompositeLit t2 delts)]"
    and rs: "list_all2 isEntry relts rs"
    and ds: "list_all2 isEntry delts ds"
  shows "\<exists>p. parseProviderDefinition decls = Inr p
           \<and> resources p = map mkDef rs \<and> datasources p = map mkDef ds
           \<and> length (resources p) = length relts \<and> length (datasources p) = length delts"
proof -
  have "parseProviderDefinition decls = Inr \<lparr>datasources = map mkDef ds, resources = map mkDef rs\<rparr>"
    by (rule parseProviderDefinition_shape) (fact assms)+
  moreover from rs have "length rs = length relts" by (simp add: list_all2_lengthD)
  moreover from ds have "length ds = length delts" by (simp add: list_all2_lengthD)
  ultimately show ?thesis by simp
qed

theorem parseProviderDefinition_catalog_witness:
  "parseProviderDefinition
     [OtherNode [],
      FuncDecl ''Provider'' (Some (Some [SelectorExpr (Ident ''terraform'' None) ''ResourceProvider'']))
        (Some [ReturnStmt [UnaryExpr (CompositeLit (Some (SelectorExpr (Ident ''schema'' None) ''Provider''))
           [KeyValueExpr (Ident ''Schema'' None) (OtherNode []),
            KeyValueExpr (Ident ''ResourcesMap'' None) (CompositeLit (Some (OtherNode []))
              [KeyValueExpr (BasicLit (CHR 0x22 # ''acme_widget'' @ [CHR 0x22])) (CallExpr (Ident ''resourceWidget'' None) []),
               KeyValueExpr (BasicLit (CHR 0x22 # ''acme_gadget'' @ [CHR 0x22])) (CallExpr (Ident ''resourceGadget'' None) [])]),
            KeyValueExpr (Ident ''DataSourcesMap'' None) (CompositeLit (Some (OtherNode []))
              [KeyValueExpr (BasicLit (CHR 0x22 # ''acme_region'' @ [CHR 0x22])) (CallExpr (Ident ''dataSourceRegion'' None) [])])])]])]
   = Inr \<lparr>datasources = [\<lparr>name = ''acme_region'', fnc = ''dataSourceRegion''\<rparr>],
          resources = [\<lparr>name = ''acme_widget'', fnc = ''resourceWidget''\<rparr>,
                       \<lparr>name = ''acme_gadget'', fnc = ''resourceGadget''\<rparr>]\<rparr>"
  using parseProviderDefinition_catalog
    [where pre = "[OtherNode []]" and post = "[]" and ?s1.0 = "[]" and ?s2.0 = "[]" and rest = "[]"
       and fty = "Some (Some [SelectorExpr (Ident ''terraform'' None) ''ResourceProvider''])"
       and sty = "Some (SelectorExpr (Ident ''schema'' None) ''Provider'')"
       and flds = "[KeyValueExpr (Ident ''Schema'' None) (OtherNode []),
            KeyValueExpr (Ident ''ResourcesMap'' None) (CompositeLit (Some (OtherNode []))
              [KeyValueExpr (BasicLit (CHR 0x22 # ''acme_widget'' @ [CHR 0x22])) (CallExpr (Ident ''resourceWidget'' None) []),
               KeyValueExpr (BasicLit (CHR 0x22 # ''acme_gadget'' @ [CHR 0x22])) (CallExpr (Ident ''resourceGadget'' None) [])]),
            KeyValueExpr (Ident ''DataSourcesMap'' None) (CompositeLit (Some (OtherNode []))
              [KeyValueExpr (BasicLit (CHR 0x22 # ''acme_region'' @ [CHR 0x22])) (CallExpr (Ident ''dataSourceRegion'' None) [])])]"
       and ?o1.0 = None and ?o2.0 = None and ?t1.0 = "Some (OtherNode [])" and ?t2.0 = "Some (OtherNode [])"
       and relts = "[KeyValueExpr (BasicLit (CHR 0x22 # ''acme_widget'' @ [CHR 0x22])) (CallExpr (Ident ''resourceWidget'' None) []),
               KeyValueExpr (BasicLit (CHR 0x22 # ''acme_gadget'' @ [CHR 0x22])) (CallExpr (Ident ''resourceGadget'' None) [])]"
       and delts = "[KeyValueExpr (BasicLit (CHR 0x22 # ''acme_region'' @ [CHR 0x22])) (CallExpr (Ident ''dataSourceRegion'' None) [])]"
       and rs = "[(''acme_widget'', ''resourceWidget''), (''acme_gadget'', ''resourceGadget'')]"
       and ds = "[(''acme_region'', ''dataSourceRegion'')]", OF refl _ refl]
  by (auto simp: isProviderFunc_def isReturn_def fieldKey_def isEntry_def mkDef_def)

text \<open>
  C2, as stated, fails: of two entries of the resource map with the same declared name, the
  earlier one is in the catalog too.
\<close>

theorem parseProviderDefinition_duplicate_counterexample:
  "parseProviderDefinition
     [FuncDecl ''Provider'' (Some (Some [SelectorExpr (Ident ''terraform'' None) ''ResourceProvider'']))
        (Some [ReturnStmt [UnaryExpr (CompositeLit (Some (SelectorExpr (Ident ''schema'' None) ''Provider''))
           [KeyValueExpr (Ident ''ResourcesMap'' None) (CompositeLit (Some (OtherNode []))
              [KeyValueExpr (BasicLit (CHR 0x22 # ''acme_widget'' @ [CHR 0x22])) (CallExpr (Ident ''resourceWidgetOld'' None) []),
               KeyValueExpr (BasicLit (CHR 0x22 # ''acme_widget'' @ [CHR 0x22])) (CallExpr (Ident ''resourceWidget'' None) [])])])]])]
   = Inr \<lparr>datasources = [],
          resources = [\<lparr>name = ''acme_widget'', fnc = ''resourceWidgetOld''\<rparr>,
                       \<lparr>name = ''acme_widget'', fnc = ''resourceWidget''\<rparr>]\<rparr>"
  by (simp add: parseProviderDefinition_def providerDecl_def providerStmt_def providerField_def
      appendEntry_def resourceEntry_def decodeString_def)

text \<open>
  C2, amended. For a declaration of the shape of C1: when the entries at the positions
  \<open>i < j\<close> of the resource map (or of the datasource map) have the same declared name, the
  catalog keeps both, the earlier pair at position \<open>i\<close> and the later one at position \<open>j\<close>
  of the list of that kind; nothing is shadowed.
\<close>

theorem parseProviderDefinition_keeps_duplicates:
  assumes "decls = pre @ [FuncDecl ''Provider'' fty (Some body)] @ post"
    and "\<not> list_ex isProviderFunc (pre @ post)"
    and "body = s1 @ [ReturnStmt (UnaryExpr (CompositeLit sty flds) # rest)] @ s2"
    and "\<not> list_ex isReturn (s1 @ s2)"
    and "list_all (\<lambda>e. fieldKey e \<noteq> None) flds"
    and "filter (\<lambda>e. fieldKey e = Some ''ResourcesMap'') flds =
           [KeyValueExpr (Ident ''ResourcesMap'' o1) (CompositeLit t1 relts)]"
    and "filter (\<lambda>e. fieldKey e = Some ''DataSourcesMap'') flds =
           [KeyValueExpr (Ident ''DataSourcesMap'' o2) (CompositeLit t2 delts)]"
    and "list_all2 isEntry relts rs"
    and "list_all2 isEntry delts ds"
  shows "\<exists>p. parseProviderDefinition decls = Inr p
           \<and> (\<forall>i j. i < j \<and> j < length rs \<and> fst (rs ! i) = fst (rs ! j) \<longrightarrow>
                 length (resources p) = length rs
                 \<and> resources p ! i = mkDef (rs ! i) \<and> resources p ! j = mkDef (rs ! j))
           \<and> (\<forall>i j. i < j \<and> j < length ds \<and> fst (ds ! i) = fst (ds ! j) \<longrightarrow>
                 length (datasources p) = length ds
                 \<and> datasources p ! i = mkDef (ds ! i) \<and> datasources p ! j = mkDef (ds ! j))"
proof -
  have "parseProviderDefinition decls = Inr \<lparr>datasources = map mkDef ds, resources = map mkDef rs\<rparr>"
    by (rule parseProviderDefinition_shape) (fact assms)+
  then show ?thesis by simp
qed

theorem parseProviderDefinition_keeps_duplicates_witness:
  "\<exists>p. parseProviderDefinition
     [FuncDecl ''Provider'' None
        (Some [ReturnStmt [UnaryExpr (CompositeLit None
           [KeyValueExpr (Ident ''ResourcesMap'' None) (CompositeLit None
              [KeyValueExpr (BasicLit (CHR 0x22 # ''acme_widget'' @ [CHR 0x22])) (CallExpr (Ident ''resourceWidgetOld'' None) []),
               KeyValueExpr (BasicLit (CHR 0x22 # ''acme_widget'' @ [CHR 0x22])) (CallExpr (Ident ''resourceWidget'' None) [])]),
            KeyValueExpr (Ident ''DataSourcesMap'' None) (CompositeLit None
              [KeyValueExpr (BasicLit (CHR 0x22 # ''acme_zone'' @ [CHR 0x22])) (CallExpr (Ident ''dataSourceZoneOld'' None) []),
               KeyValueExpr (BasicLit (CHR 0x22 # ''acme_zone'' @ [CHR 0x22])) (CallExpr (Ident ''dataSourceZone'' None) [])])])]])] = Inr p
     \<and> length (resources p) = 2
     \<and> resources p ! 0 = \<lparr>name = ''acme_widget'', fnc = ''resourceWidgetOld''\<rparr>
     \<and> resources p ! 1 = \<lparr>name = ''acme_widget'', fnc = ''resourceWidget''\<rparr>
     \<and> length (datasources p) = 2
     \<and> datasources p ! 0 = \<lparr>name = ''acme_zone'', fnc = ''dataSourceZoneOld''\<rparr>
     \<and> datasources p ! 1 = \<lparr>name = ''acme_zone'', fnc = ''dataSourceZone''\<rparr>"
proof -
  let ?relts = "[KeyValueExpr (BasicLit (CHR 0x22 # ''acme_widget'' @ [CHR 0x22])) (CallExpr (Ident ''resourceWidgetOld'' None) []),
               KeyValueExpr (BasicLit (CHR 0x22 # ''acme_widget'' @ [CHR 0x22])) (CallExpr (Ident ''resourceWidget'' None) [])]"
  let ?delts = "[KeyValueExpr (BasicLit (CHR 0x22 # ''acme_zone'' @ [CHR 0x22])) (CallExpr (Ident ''dataSourceZoneOld'' None) []),
               KeyValueExpr (BasicLit (CHR 0x22 # ''acme_zone'' @ [CHR 0x22])) (CallExpr (Ident ''dataSourceZone'' None) [])]"
  let ?rs = "[(''acme_widget'', ''resourceWidgetOld''), (''acme_widget'', ''resourceWidget'')]"
  let ?ds = "[(''acme_zone'', ''dataSourceZoneOld''), (''acme_zone'', ''dataSourceZone'')]"
  let ?flds = "[KeyValueExpr (Ident ''ResourcesMap'' None) (CompositeLit None ?relts),
                KeyValueExpr (Ident ''DataSourcesMap'' None) (CompositeLit None ?delts)]"
  obtain p where p: "parseProviderDefinition
        [FuncDecl ''Provider'' None (Some [ReturnStmt [UnaryExpr (CompositeLit None ?flds)]])] = Inr p"
    and r: "\<forall>i j. i < j \<and> j < length ?rs \<and> fst (?rs ! i) = fst (?rs ! j) \<longrightarrow>
                 length (resources p) = length ?rs
                 \<and> resources p ! i = mkDef (?rs ! i) \<and> resources p ! j = mkDef (?rs ! j)"
    and d: "\<forall>i j. i < j \<and> j < length ?ds \<and> fst (?ds ! i) = fst (?ds ! j) \<longrightarrow>
                 length (datasources p) = length ?ds
                 \<and> datasources p ! i = mkDef (?ds ! i) \<and> datasources p ! j = mkDef (?ds ! j)"
    using parseProviderDefinition_keeps_duplicates
      [where pre = "[]" and post = "[]" and ?s1.0 = "[]" and ?s2.0 = "[]" and rest = "[]"
         and fty = None and sty = None and flds = ?flds
         and ?o1.0 = None and ?o2.0 = None and ?t1.0 = None and ?t2.0 = None
         and relts = ?relts and delts = ?delts and rs = ?rs and ds = ?ds, OF refl _ refl]
    by (auto simp: isProviderFunc_def isReturn_def fieldKey_def isEntry_def)
  from r [rule_format, of 0 1] d [rule_format, of 0 1] p show ?thesis
    by (simp add: mkDef_def)
qed


subsection \<open>The checks of schema-checker\<close>

lemma propertyName_isProperty: "isProperty e k \<Longrightarrow> propertyName e = Inr k"
  by (auto simp: isProperty_def propertyName_def split: node.splits)

lemma descriptionLoop:
  "list_all2 isProperty elts ks \<Longrightarrow>
   forEach descriptionStep elts b = Inr (b \<or> ''Description'' \<in> set ks)"
proof (induction elts ks arbitrary: b rule: list_all2_induct)
  case Nil
  then show ?case by simp
next
  case (Cons e k elts ks)
  then show ?case
    by (auto simp: descriptionStep_def propertyName_isProperty)
qed

text \<open>
  C4. For an attribute whose literal holds the properties named \<open>ks\<close> (each element is
  \<^verbatim>\<open>Name: value\<close>, whatever the value), \<^verbatim>\<open>checkDescription\<close> returns the
  missing-description error exactly when no property is named \<open>Description\<close>; the value of
  the property is not read.
\<close>

theorem checkDescription_iff:
  assumes "list_all2 isProperty elts ks"
  shows "checkDescription a elts schema =
           Inr (if ''Description'' \<in> set ks then None else Some (MissingDescription a))"
  using descriptionLoop [OF assms, of False] by (simp add: checkDescription_def)

theorem checkDescription_iff_witness:
  "checkDescription ''name''
     [KeyValueExpr (Ident ''Type'' None) (SelectorExpr (Ident ''schema'' None) ''TypeString''),
      KeyValueExpr (Ident ''Description'' None) (BasicLit [CHR 0x22, CHR 0x22])] (OtherNode []) = Inr None
   \<and> checkDescription ''name''
     [KeyValueExpr (Ident ''Type'' None) (SelectorExpr (Ident ''schema'' None) ''TypeString'')] (OtherNode [])
       = Inr (Some (MissingDescription ''name''))"
  using checkDescription_iff [of
      "[KeyValueExpr (Ident ''Type'' None) (SelectorExpr (Ident ''schema'' None) ''TypeString''),
        KeyValueExpr (Ident ''Description'' None) (BasicLit [CHR 0x22, CHR 0x22])]"
      "[''Type'', ''Description'']" "''name''" "OtherNode []"]
    checkDescription_iff [of
      "[KeyValueExpr (Ident ''Type'' None) (SelectorExpr (Ident ''schema'' None) ''TypeString'')]"
      "[''Type'']" "''name''" "OtherNode []"]
  by (simp add: isProperty_def)

lemma conflictLoop_skip:
  "list_all2 isProperty elts ks \<Longrightarrow> ''ConflictsWith'' \<notin> set ks \<Longrightarrow>
   forEach conflictStep elts acc = Inr acc"
proof (induction elts ks arbitrary: acc rule: list_all2_induct)
  case Nil
  then show ?case by simp
next
  case (Cons e k elts ks)
  then show ?case
    by (auto simp: conflictStep_def propertyName_isProperty)
qed

lemma conflictTargets:
  "list_all2 isTarget tnodes targets \<Longrightarrow> forEach conflictTarget tnodes acc = Inr (acc @ targets)"
proof (induction tnodes targets arbitrary: acc rule: list_all2_induct)
  case Nil
  then show ?case by simp
next
  case (Cons e t tnodes targets)
  then show ?case
    by (auto simp: conflictTarget_def isTarget_def split: node.splits)
qed

lemma conflictLoop:
  assumes "elts = ps1 @ [KeyValueExpr (Ident ''ConflictsWith'' ob) (CompositeLit ty tnodes)] @ ps2"
    and "list_all2 isProperty ps1 ks1" and "list_all2 isProperty ps2 ks2"
    and "''ConflictsWith'' \<notin> set (ks1 @ ks2)"
    and "list_all2 isTarget tnodes targets"
  shows "forEach conflictStep elts [] = Inr targets"
  using assms
  by (simp add: forEach_append conflictLoop_skip conflictStep_def propertyName_def conflictTargets)

lemma checkConflictsWith_eval:
  assumes "elts = ps1 @ [KeyValueExpr (Ident ''ConflictsWith'' ob) (CompositeLit ty tnodes)] @ ps2"
    and "list_all2 isProperty ps1 ks1" and "list_all2 isProperty ps2 ks2"
    and "''ConflictsWith'' \<notin> set (ks1 @ ks2)"
    and "list_all2 isTarget tnodes targets"
    and "collectAttributeNames schema = Inr names"
  shows "checkConflictsWith a elts schema =
           Inr (if set targets \<subseteq> set names then None
                else Some (DanglingConflict a (filter (\<lambda>t. t \<notin> set names) targets)))"
proof -
  have loop: "forEach conflictStep elts [] = Inr targets"
    by (rule conflictLoop) (fact assms)+
  have "filter (\<lambda>t. t \<notin> set names) targets = [] \<longleftrightarrow> set targets \<subseteq> set names"
    by (auto simp: filter_empty_conv)
  then show ?thesis
    using assms(6) by (auto simp: checkConflictsWith_def loop Let_def)
qed

lemma runAll_append:
  "runAll (xs @ ys) =
     (case snd (runAll xs) of
        Some e \<Rightarrow> runAll xs
      | None \<Rightarrow> (fst (runAll xs) @ fst (runAll ys), snd (runAll ys)))"
  by (induction xs) (auto split: option.splits simp: prod_eq_iff)

lemma runAll_skip: "runAll (xs @ [([], None)] @ ys) = runAll (xs @ ys)"
  by (simp add: runAll_append split: option.splits)

lemma Walk_collector_ident_key:
  "Walk attributeCollector () (KeyValueExpr (Ident c ob) v) = ([], None)"
  by (simp add: Walk.simps attributeCollector_def)

lemma collectAttributeNames_ident_key:
  "collectAttributeNames (CompositeLit ty (es1 @ [KeyValueExpr (Ident c ob) v] @ es2))
     = collectAttributeNames (CompositeLit ty (es1 @ es2))"
proof -
  let ?W = "Walk attributeCollector ()"
  let ?t = "case ty of None \<Rightarrow> [] | Some t \<Rightarrow> [t]"
  have "runAll (([], None) # map ?W (?t @ es1 @ [KeyValueExpr (Ident c ob) v] @ es2))
      = runAll ((([], None) # map ?W (?t @ es1)) @ [([], None)] @ map ?W es2)"
    by (simp add: Walk_collector_ident_key)
  also have "\<dots> = runAll ((([], None) # map ?W (?t @ es1)) @ map ?W es2)"
    by (rule runAll_skip)
  finally have "?W (CompositeLit ty (es1 @ [KeyValueExpr (Ident c ob) v] @ es2))
      = ?W (CompositeLit ty (es1 @ es2))"
    by (simp add: Walk.simps [of attributeCollector "()" "CompositeLit ty es" for es]
        attributeCollector_def)
  then show ?thesis by (simp add: collectAttributeNames_def)
qed

lemma runAll_all_nil: "\<forall>r \<in> set rs. r = ([], None) \<Longrightarrow> runAll rs = ([], None)"
  by (induction rs) auto

lemma collector_descends:
  "attributeCollector () (Ident n ob) = ([], Descend ())"
  "attributeCollector () (StarExpr x) = ([], Descend ())"
  "attributeCollector () (SelectorExpr x sel) = ([], Descend ())"
  "attributeCollector () (OtherNode ns) = ([], Descend ())"
  "attributeCollector () (CompositeLit sty es) = ([], Descend ())"
  by (simp_all add: attributeCollector_def)

lemma collector_key_value:
  "attributeCollector () (KeyValueExpr (BasicLit (CHR 0x22 # n @ [CHR 0x22])) v) = ([n], Stop)"
  "(\<And>s. key \<noteq> BasicLit s) \<Longrightarrow> attributeCollector () (KeyValueExpr key v) = ([], Stop)"
  by (simp_all add: attributeCollector_def split: node.splits)

lemma Walk_collector_plainType:
  "plainType t \<Longrightarrow> Walk attributeCollector () t = ([], None)"
proof (induction t rule: plainType.induct)
  case (1 n ob)
  show ?case by (simp add: Walk.simps [of _ _ "Ident n ob"] collector_descends)
next
  case (2 x)
  then show ?case by (simp add: Walk.simps [of _ _ "StarExpr x"] collector_descends)
next
  case (3 x sel)
  have "Walk attributeCollector () (Ident sel None) = ([], None)"
    by (simp add: Walk.simps [of _ _ "Ident sel None"] collector_descends)
  with 3 show ?case by (simp add: Walk.simps [of _ _ "SelectorExpr x sel"] collector_descends)
next
  case (4 ns)
  have "runAll (([], None) # map (Walk attributeCollector ()) ns) = ([], None)"
    by (rule runAll_all_nil) (use 4 in auto)
  then show ?case by (simp only: Walk.simps [of _ _ "OtherNode ns"] collector_descends
        snd_conv fst_conv step.case children.simps)
qed simp_all

lemma Walk_collector_attribute:
  assumes "isAttribute e k"
  shows "Walk attributeCollector () e = ((case k of Some n \<Rightarrow> [n] | None \<Rightarrow> []), None)"
proof -
  from assms obtain key v where e: "e = KeyValueExpr key v"
    by (cases e) (simp_all add: isAttribute_def)
  show ?thesis
  proof (cases "\<exists>s. key = BasicLit s")
    case True
    then obtain s where key: "key = BasicLit s" ..
    with assms e obtain n where k: "k = Some n" and s: "s = CHR 0x22 # n @ [CHR 0x22]"
      by (cases k) (simp_all add: isAttribute_def)
    show ?thesis
      unfolding e key s k
      by (simp add: Walk.simps [of _ _ "KeyValueExpr a b" for a b] collector_key_value(1))
  next
    case False
    with assms e have k: "k = None"
      by (cases key) (simp_all add: isAttribute_def)
    from False have "attributeCollector () (KeyValueExpr key v) = ([], Stop)"
      by (intro collector_key_value(2)) auto
    then show ?thesis
      unfolding e k by (simp add: Walk.simps [of _ _ "KeyValueExpr key v"])
  qed
qed

lemma Walk_collector_attributes:
  "list_all2 isAttribute es keys \<Longrightarrow>
   runAll (map (Walk attributeCollector ()) es) = (literalKeys keys, None)"
proof (induction es keys rule: list_all2_induct)
  case Nil
  then show ?case by (simp add: literalKeys_def)
next
  case (Cons e k es keys)
  then show ?case
    by (simp add: Walk_collector_attribute literalKeys_def)
qed

lemma collectAttributeNames_top_level:
  assumes "case sty of None \<Rightarrow> True | Some t \<Rightarrow> plainType t"
    and "list_all2 isAttribute entries keys"
  shows "collectAttributeNames (CompositeLit sty entries) = Inr (literalKeys keys)"
proof -
  let ?W = "Walk attributeCollector ()"
  let ?t = "case sty of None \<Rightarrow> [] | Some t \<Rightarrow> [t]"
  have ty: "runAll (([], None) # map ?W ?t) = ([], None)"
    using assms(1) by (cases sty) (simp_all add: Walk_collector_plainType)
  have "runAll ((([], None) # map ?W ?t) @ map ?W entries) = (literalKeys keys, None)"
    unfolding runAll_append [of "([], None) # map ?W ?t"] ty
    by (simp add: Walk_collector_attributes [OF assms(2)])
  then have "?W (CompositeLit sty entries) = (literalKeys keys, None)"
    by (simp add: Walk.simps [of attributeCollector "()" "CompositeLit sty entries"]
        collector_descends)
  then show ?thesis by (simp add: collectAttributeNames_def)
qed


text \<open>
  C5, as stated, fails: the names are not collected from the entire schema. The collector
  walks into no key-value entry, so the attribute \<^verbatim>\<open>"inner"\<close> of the nested schema of
  \<^verbatim>\<open>"block"\<close> is not among the names, and the target \<^verbatim>\<open>inner\<close> of \<^verbatim>\<open>"a"\<close>, which is
  present in the schema, is reported as dangling.
\<close>

theorem nested_target_reported_counterexample:
  "collectAttributeNames nestedSchema = Inr [''a'', ''block'']
   \<and> checkConflictsWith (CHR 0x22 # ''a'' @ [CHR 0x22])
        [KeyValueExpr (Ident ''Type'' None) (SelectorExpr (Ident ''schema'' None) ''TypeString''),
         KeyValueExpr (Ident ''ConflictsWith'' None)
           (CompositeLit (Some (OtherNode [Ident ''string'' None]))
              [BasicLit (CHR 0x22 # ''inner'' @ [CHR 0x22])])]
        nestedSchema
      = Inr (Some (DanglingConflict (CHR 0x22 # ''a'' @ [CHR 0x22]) [''inner'']))
   \<and> checkSchema (OtherNode [Ident ''acme'' None,
        FuncDecl ''resourceWidget'' (Some (Some [StarExpr (SelectorExpr (Ident ''schema'' None) ''Resource'')]))
          (Some [ReturnStmt [UnaryExpr (CompositeLit (Some (SelectorExpr (Ident ''schema'' None) ''Resource''))
             [KeyValueExpr (Ident ''Schema'' None) nestedSchema])]])])
      = ([MissingDescription (CHR 0x22 # ''a'' @ [CHR 0x22]),
          DanglingConflict (CHR 0x22 # ''a'' @ [CHR 0x22]) [''inner''],
          MissingDescription (CHR 0x22 # ''block'' @ [CHR 0x22])], None)"
proof -
  have names: "collectAttributeNames nestedSchema = Inr [''a'', ''block'']"
    by (simp add: collectAttributeNames_def nestedSchema_def stringSchemaType_def
        stringAttribute_def Walk.simps attributeCollector_def)
  have check: "checkConflictsWith (CHR 0x22 # ''a'' @ [CHR 0x22])
        [KeyValueExpr (Ident ''Type'' None) (SelectorExpr (Ident ''schema'' None) ''TypeString''),
         KeyValueExpr (Ident ''ConflictsWith'' None)
           (CompositeLit (Some (OtherNode [Ident ''string'' None]))
              [BasicLit (CHR 0x22 # ''inner'' @ [CHR 0x22])])]
        nestedSchema
      = Inr (Some (DanglingConflict (CHR 0x22 # ''a'' @ [CHR 0x22]) [''inner'']))"
    by (simp add: checkConflictsWith_def names conflictStep_def propertyName_def conflictTarget_def)
  have run: "checkSchema (OtherNode [Ident ''acme'' None,
        FuncDecl ''resourceWidget'' (Some (Some [StarExpr (SelectorExpr (Ident ''schema'' None) ''Resource'')]))
          (Some [ReturnStmt [UnaryExpr (CompositeLit (Some (SelectorExpr (Ident ''schema'' None) ''Resource''))
             [KeyValueExpr (Ident ''Schema'' None) nestedSchema])]])])
      = ([MissingDescription (CHR 0x22 # ''a'' @ [CHR 0x22]),
          DanglingConflict (CHR 0x22 # ''a'' @ [CHR 0x22]) [''inner''],
          MissingDescription (CHR 0x22 # ''block'' @ [CHR 0x22])], None)"
    by (simp add: checkSchema_def nestedSchema_def stringSchemaType_def stringAttribute_def
        Walk.simps checks_def checkDescription_def checkAttributeName_def checkConflictsWith_def
        descriptionStep_def conflictStep_def propertyName_def conflictTarget_def
        collectAttributeNames_def attributeCollector_def)
  from names check run show ?thesis by simp
qed


text \<open>
  C5, amended. For an attribute with a \<^verbatim>\<open>ConflictsWith\<close> property listing \<open>targets\<close>,
  checked against a schema literal with the entries \<open>entries\<close>: the names consulted are the
  literal keys of those entries, in their order, and nothing from inside an entry (no
  attribute of a nested schema, no attribute whose key is not a literal). There is no error
  when every target is among these names, and otherwise one error, which names exactly the
  targets that are not, in their order.
\<close>

theorem checkConflictsWith_top_level_names:
  assumes "elts = ps1 @ [KeyValueExpr (Ident ''ConflictsWith'' ob) (CompositeLit ty tnodes)] @ ps2"
    and "list_all2 isProperty ps1 ks1" and "list_all2 isProperty ps2 ks2"
    and "''ConflictsWith'' \<notin> set (ks1 @ ks2)"
    and "list_all2 isTarget tnodes targets"
    and "case sty of None \<Rightarrow> True | Some t \<Rightarrow> plainType t"
    and "list_all2 isAttribute entries keys"
  shows "collectAttributeNames (CompositeLit sty entries) = Inr (literalKeys keys)
       \<and> checkConflictsWith a elts (CompositeLit sty entries) =
           Inr (if set targets \<subseteq> set (literalKeys keys) then None
                else Some (DanglingConflict a
                       (filter (\<lambda>t. t \<notin> set (literalKeys keys)) targets)))"
proof -
  have names: "collectAttributeNames (CompositeLit sty entries) = Inr (literalKeys keys)"
    by (rule collectAttributeNames_top_level [OF assms(6,7)])
  have loop: "forEach conflictStep elts [] = Inr targets"
    by (rule conflictLoop [OF assms(1-5)])
  have check: "checkConflictsWith a elts (CompositeLit sty entries) =
           Inr (if set targets \<subseteq> set (literalKeys keys) then None
                else Some (DanglingConflict a
                       (filter (\<lambda>t. t \<notin> set (literalKeys keys)) targets)))"
  proof (cases "set targets \<subseteq> set (literalKeys keys)")
    case True
    then have "filter (\<lambda>t. t \<notin> set (literalKeys keys)) targets = []"
      by (auto simp: filter_empty_conv)
    with True names show ?thesis
      by (simp add: checkConflictsWith_def loop)
  next
    case False
    then have "filter (\<lambda>t. t \<notin> set (literalKeys keys)) targets \<noteq> []"
      by (auto simp: filter_empty_conv)
    moreover from False have "targets \<noteq> []" by auto
    ultimately show ?thesis using False names
      by (simp add: checkConflictsWith_def loop)
  qed
  from names check show ?thesis ..
qed

theorem checkConflictsWith_top_level_names_witness:
  "collectAttributeNames nestedSchema = Inr [''a'', ''block'']
   \<and> checkConflictsWith ''a''
        [KeyValueExpr (Ident ''Type'' None) (SelectorExpr (Ident ''schema'' None) ''TypeString''),
         KeyValueExpr (Ident ''ConflictsWith'' None)
           (CompositeLit (Some (OtherNode [Ident ''string'' None]))
              [BasicLit (CHR 0x22 # ''c'' @ [CHR 0x22]), BasicLit (CHR 0x22 # ''block'' @ [CHR 0x22]),
               BasicLit (CHR 0x22 # ''inner'' @ [CHR 0x22])])]
        nestedSchema
      = Inr (Some (DanglingConflict ''a'' [''c'', ''inner'']))
   \<and> checkConflictsWith ''a''
        [KeyValueExpr (Ident ''Type'' None) (SelectorExpr (Ident ''schema'' None) ''TypeString''),
         KeyValueExpr (Ident ''ConflictsWith'' None)
           (CompositeLit (Some (OtherNode [Ident ''string'' None]))
              [BasicLit (CHR 0x22 # ''block'' @ [CHR 0x22])])]
        nestedSchema
      = Inr None"
proof -
  let ?ps1 = "[KeyValueExpr (Ident ''Type'' None) (SelectorExpr (Ident ''schema'' None) ''TypeString'')]"
  let ?cty = "Some (OtherNode [Ident ''string'' None])"
  let ?entries = "[KeyValueExpr (BasicLit (CHR 0x22 # ''a'' @ [CHR 0x22]))
          (CompositeLit None
             [KeyValueExpr (Ident ''Type'' None) (SelectorExpr (Ident ''schema'' None) ''TypeString''),
              KeyValueExpr (Ident ''ConflictsWith'' None)
                (CompositeLit (Some (OtherNode [Ident ''string'' None]))
                   [BasicLit (CHR 0x22 # ''inner'' @ [CHR 0x22])])]),
        KeyValueExpr (BasicLit (CHR 0x22 # ''block'' @ [CHR 0x22]))
          (CompositeLit None
             [KeyValueExpr (Ident ''Type'' None) (SelectorExpr (Ident ''schema'' None) ''TypeList''),
              KeyValueExpr (Ident ''Elem'' None)
                (UnaryExpr (CompositeLit (Some (SelectorExpr (Ident ''schema'' None) ''Resource''))
                   [KeyValueExpr (Ident ''Schema'' None)
                      (CompositeLit (Some stringSchemaType)
                         [stringAttribute (BasicLit (CHR 0x22 # ''inner'' @ [CHR 0x22]))])]))])]"
  have schema: "nestedSchema = CompositeLit (Some stringSchemaType) ?entries"
    by (simp add: nestedSchema_def)
  have ty: "case Some stringSchemaType of None \<Rightarrow> True | Some t \<Rightarrow> plainType t"
    by (simp add: stringSchemaType_def)
  have attrs: "list_all2 isAttribute ?entries [Some ''a'', Some ''block'']"
    by (simp add: isAttribute_def)
  have keys: "literalKeys [Some ''a'', Some ''block''] = [''a'', ''block'']"
    by (simp add: literalKeys_def)
  note one = checkConflictsWith_top_level_names
     [where ?ps1.0 = ?ps1 and ?ps2.0 = "[]" and ?ks1.0 = "[''Type'']" and ?ks2.0 = "[]"
        and ob = None and ty = ?cty and a = "''a''"
        and tnodes = "[BasicLit (CHR 0x22 # ''c'' @ [CHR 0x22]), BasicLit (CHR 0x22 # ''block'' @ [CHR 0x22]),
               BasicLit (CHR 0x22 # ''inner'' @ [CHR 0x22])]"
        and targets = "[''c'', ''block'', ''inner'']", OF refl _ _ _ _ ty attrs]
  note two = checkConflictsWith_top_level_names
     [where ?ps1.0 = ?ps1 and ?ps2.0 = "[]" and ?ks1.0 = "[''Type'']" and ?ks2.0 = "[]"
        and ob = None and ty = ?cty and a = "''a''"
        and tnodes = "[BasicLit (CHR 0x22 # ''block'' @ [CHR 0x22])]"
        and targets = "[''block'']", OF refl _ _ _ _ ty attrs]
  from one two show ?thesis
    unfolding schema [symmetric] keys
    by (simp add: isProperty_def isTarget_def)
qed

text \<open>
  C9. \<^verbatim>\<open>collectAttributeNames\<close> collects nothing at an attribute whose key is an
  identifier: the names, and with them the outcome of \<^verbatim>\<open>checkConflictsWith\<close>, are those
  of the schema without that attribute. So a target \<open>t\<close> that only such an attribute stands for
  (its constant is declared as the literal \<^verbatim>\<open>"t"\<close>) is reported as dangling.
\<close>

theorem identifier_key_not_collected:
  assumes "elts = ps1 @ [KeyValueExpr (Ident ''ConflictsWith'' ob') (CompositeLit ty' tnodes)] @ ps2"
    and "list_all2 isProperty ps1 ks1" and "list_all2 isProperty ps2 ks2"
    and "''ConflictsWith'' \<notin> set (ks1 @ ks2)"
    and "list_all2 isTarget tnodes targets"
    and "collectAttributeNames (CompositeLit ty (es1 @ es2)) = Inr names"
    and "keyLiteral (Ident c ob) = Inr (CHR 0x22 # t @ [CHR 0x22])"
    and "t \<in> set targets" and "t \<notin> set names"
  shows "collectAttributeNames (CompositeLit ty (es1 @ [KeyValueExpr (Ident c ob) v] @ es2)) = Inr names
       \<and> t \<in> set (filter (\<lambda>t. t \<notin> set names) targets)
       \<and> checkConflictsWith a elts (CompositeLit ty (es1 @ [KeyValueExpr (Ident c ob) v] @ es2))
           = Inr (Some (DanglingConflict a (filter (\<lambda>t. t \<notin> set names) targets)))"
proof -
  have names: "collectAttributeNames (CompositeLit ty (es1 @ [KeyValueExpr (Ident c ob) v] @ es2)) = Inr names"
    using assms(6) by (simp only: collectAttributeNames_ident_key)
  have "checkConflictsWith a elts (CompositeLit ty (es1 @ [KeyValueExpr (Ident c ob) v] @ es2))
      = Inr (if set targets \<subseteq> set names then None
             else Some (DanglingConflict a (filter (\<lambda>t. t \<notin> set names) targets)))"
    by (rule checkConflictsWith_eval [OF assms(1-5) names])
  moreover from assms(8,9) have "\<not> set targets \<subseteq> set names" by auto
  ultimately show ?thesis using names assms(8,9) by simp
qed

theorem identifier_key_not_collected_witness:
  "collectAttributeNames
     (CompositeLit (Some (OtherNode [Ident ''string'' None, StarExpr (SelectorExpr (Ident ''schema'' None) ''Schema'')]))
       [KeyValueExpr (BasicLit (CHR 0x22 # ''a'' @ [CHR 0x22]))
          (CompositeLit None
             [KeyValueExpr (Ident ''ConflictsWith'' None) (CompositeLit (Some (OtherNode [Ident ''string'' None]))
                [BasicLit (CHR 0x22 # ''b'' @ [CHR 0x22])])]),
        KeyValueExpr (Ident ''attrB'' (Some (ValueSpec [LiteralInit (CHR 0x22 # ''b'' @ [CHR 0x22])])))
          (CompositeLit None
             [KeyValueExpr (Ident ''Type'' None) (SelectorExpr (Ident ''schema'' None) ''TypeString'')])])
    = Inr [''a'']
   \<and> checkConflictsWith ''a''
       [KeyValueExpr (Ident ''ConflictsWith'' None) (CompositeLit (Some (OtherNode [Ident ''string'' None]))
                [BasicLit (CHR 0x22 # ''b'' @ [CHR 0x22])])]
     (CompositeLit (Some (OtherNode [Ident ''string'' None, StarExpr (SelectorExpr (Ident ''schema'' None) ''Schema'')]))
       [KeyValueExpr (BasicLit (CHR 0x22 # ''a'' @ [CHR 0x22]))
          (CompositeLit None
             [KeyValueExpr (Ident ''ConflictsWith'' None) (CompositeLit (Some (OtherNode [Ident ''string'' None]))
                [BasicLit (CHR 0x22 # ''b'' @ [CHR 0x22])])]),
        KeyValueExpr (Ident ''attrB'' (Some (ValueSpec [LiteralInit (CHR 0x22 # ''b'' @ [CHR 0x22])])))
          (CompositeLit None
             [KeyValueExpr (Ident ''Type'' None) (SelectorExpr (Ident ''schema'' None) ''TypeString'')])])
    = Inr (Some (DanglingConflict ''a'' [''b'']))"
proof -
  let ?ty = "Some (OtherNode [Ident ''string'' None, StarExpr (SelectorExpr (Ident ''schema'' None) ''Schema'')])"
  let ?elts = "[KeyValueExpr (Ident ''ConflictsWith'' None) (CompositeLit (Some (OtherNode [Ident ''string'' None]))
                [BasicLit (CHR 0x22 # ''b'' @ [CHR 0x22])])]"
  let ?es1 = "[KeyValueExpr (BasicLit (CHR 0x22 # ''a'' @ [CHR 0x22])) (CompositeLit None ?elts)]"
  have c: "collectAttributeNames (CompositeLit ?ty (?es1 @ [])) = Inr [''a'']"
    by (simp add: collectAttributeNames_def Walk.simps attributeCollector_def)
  show ?thesis
    using identifier_key_not_collected
      [where ?ps1.0 = "[]" and ?ps2.0 = "[]" and ?ks1.0 = "[]" and ?ks2.0 = "[]" and ob' = None
         and ty' = "Some (OtherNode [Ident ''string'' None])"
         and tnodes = "[BasicLit (CHR 0x22 # ''b'' @ [CHR 0x22])]" and targets = "[''b'']"
         and ty = ?ty and ?es1.0 = ?es1 and ?es2.0 = "[]" and names = "[''a'']"
         and c = "''attrB''" and ob = "Some (ValueSpec [LiteralInit (CHR 0x22 # ''b'' @ [CHR 0x22])])"
         and t = "''b''" and a = "''a''"
         and v = "CompositeLit None
             [KeyValueExpr (Ident ''Type'' None) (SelectorExpr (Ident ''schema'' None) ''TypeString'')]",
         OF refl _ _ _ _ c]
    by (simp add: isTarget_def keyLiteral_def)
qed


lemmas eval_defs = constructorDecl_def stringAttribute_def stringSchemaType_def

text \<open>
  C3. The code does not do what the claim says. \<^verbatim>\<open>attributeChecker\<close> passes the key
  literal as written, quotes included, to the checks, and \<^verbatim>\<open>checkAttributeName\<close>
  compares it with \<^verbatim>\<open>id\<close>: for a key written as a string literal the reserved-name error
  is never returned. For the attribute \<^verbatim>\<open>"id": {Type: schema.TypeString}\<close> the checker
  reports the missing description and nothing else.
\<close>

theorem reserved_name_not_reported:
  "checkAttributeName (CHR 0x22 # n @ [CHR 0x22]) elts schema = Inr None
   \<and> checkSchema (OtherNode [Ident ''acme'' None,
        constructorDecl ''resourceWidget'' [stringAttribute (BasicLit (CHR 0x22 # ''id'' @ [CHR 0x22]))]])
     = ([MissingDescription (CHR 0x22 # ''id'' @ [CHR 0x22])], None)"
proof
  show "checkAttributeName (CHR 0x22 # n @ [CHR 0x22]) elts schema = Inr None"
    by (simp add: checkAttributeName_def)
  show "checkSchema (OtherNode [Ident ''acme'' None,
        constructorDecl ''resourceWidget'' [stringAttribute (BasicLit (CHR 0x22 # ''id'' @ [CHR 0x22]))]])
     = ([MissingDescription (CHR 0x22 # ''id'' @ [CHR 0x22])], None)"
    by (simp add: checkSchema_def eval_defs Walk.simps checks_def checkDescription_def
        checkAttributeName_def checkConflictsWith_def descriptionStep_def conflictStep_def
        propertyName_def)
qed

subsection \<open>Attributes against the documentation\<close>

text \<open>
  C6. The code does not do what the claim says. For the catalog entry \<^verbatim>\<open>acme_region\<close>,
  built by \<^verbatim>\<open>dataSourceRegion\<close>, and an index with no fragment of that name,
  \<^verbatim>\<open>verifyAttributes\<close> checks every attribute against the empty fragment and logs one
  missing attribute for each; it logs no line for the missing fragment, and nothing at all
  when the schema has no attribute.
\<close>

theorem fragment_not_found_not_reported:
  "verifyAttributes debug
     \<lparr>datasources = [\<lparr>name = ''acme_region'', fnc = ''dataSourceRegion''\<rparr>], resources = []\<rparr>
     \<lparr>Datasources = Map.empty, Resources = Map.empty\<rparr>
     [constructorDecl ''dataSourceRegion''
        [stringAttribute (BasicLit (CHR 0x22 # ''name'' @ [CHR 0x22])),
         stringAttribute (BasicLit (CHR 0x22 # ''zone'' @ [CHR 0x22]))]]
   = ([Missing ''`name`'' ''acme_region'', Missing ''`zone`'' ''acme_region''], None)
   \<and> verifyAttributes debug
     \<lparr>datasources = [\<lparr>name = ''acme_region'', fnc = ''dataSourceRegion''\<rparr>], resources = []\<rparr>
     \<lparr>Datasources = Map.empty, Resources = Map.empty\<rparr>
     [constructorDecl ''dataSourceRegion'' []]
   = ([], None)"
  by (simp add: verifyAttributes_def verifyDecl_def verifyBody_def verifyField_def verifySchema_def
      verifyAttribute_def keyLiteral_def decodeString_def eval_defs HasPrefix_def)

text \<open>
  C7. The code does not do what the claim says. An attribute whose key is an identifier
  that the parser did not resolve in the file (a constant of another file of the package) is
  not skipped: \<^verbatim>\<open>eltt.Key.(*ast.Ident).Obj.Decl\<close> dereferences nil and the run panics,
  after the line for the attribute before it; the attribute after it is never checked.
\<close>

theorem unresolved_key_panics:
  "verifyAttributes False
     \<lparr>datasources = [], resources = [\<lparr>name = ''acme_widget'', fnc = ''resourceWidget''\<rparr>]\<rparr>
     \<lparr>Datasources = Map.empty, Resources = [''acme_widget'' \<mapsto> ''* `size` - the size'']\<rparr>
     [constructorDecl ''resourceWidget''
        [stringAttribute (BasicLit (CHR 0x22 # ''name'' @ [CHR 0x22])),
         stringAttribute (Ident ''attrZone'' None),
         stringAttribute (BasicLit (CHR 0x22 # ''colour'' @ [CHR 0x22]))]]
   = ([Missing ''`name`'' ''acme_widget''], Some NilDereference)"
  by (simp add: verifyAttributes_def verifyDecl_def verifyBody_def verifyField_def verifySchema_def
      verifyAttribute_def keyLiteral_def decodeString_def eval_defs HasPrefix_def)

lemma verifySchema_append:
  "verifySchema debug schemaName docset (xs @ ys) =
     (case snd (verifySchema debug schemaName docset xs) of
        Some e \<Rightarrow> verifySchema debug schemaName docset xs
      | None \<Rightarrow> (fst (verifySchema debug schemaName docset xs) @ fst (verifySchema debug schemaName docset ys),
                 snd (verifySchema debug schemaName docset ys)))"
  unfolding verifySchema_def by (simp add: runAll_append)

lemma verifyAttribute_ident_literal:
  "verifyAttribute debug schemaName docset (KeyValueExpr (Ident c (Some (ValueSpec (LiteralInit l # vs)))) v)
     = verifyAttribute debug schemaName docset (KeyValueExpr (BasicLit l) v)"
  by (simp add: verifyAttribute_def keyLiteral_def)

lemma verifyAttribute_ident_panic:
  "ob = None \<or> ob = Some OtherDecl \<or> ob = Some (ValueSpec []) \<or> ob = Some (ValueSpec (OtherInit # vs)) \<Longrightarrow>
   \<exists>e. verifyAttribute debug schemaName docset (KeyValueExpr (Ident c ob) v) = ([], Some e)"
  by (auto simp: verifyAttribute_def keyLiteral_def)

text \<open>
  What the loop over the entries of a schema does at an entry whose key is an identifier, in
  general. When the identifier is declared in the file by a value specification whose first
  initializer is a literal, the entry is checked as if that literal were its key (also when
  the specification has more values). When the identifier is unresolved, is not declared by
  a value specification, has no initializer, or has a first initializer that is not a
  literal, the loop panics at the entry: what the entries before it logged stands, and the
  entries after it are not checked. No entry is skipped.
\<close>

lemma identifier_key_not_skipped:
  "(ob = Some (ValueSpec (LiteralInit l # vs)) \<longrightarrow>
      verifySchema debug schemaName docset (es1 @ [KeyValueExpr (Ident c ob) v] @ es2)
        = verifySchema debug schemaName docset (es1 @ [KeyValueExpr (BasicLit l) v] @ es2))
   \<and> ((ob = None \<or> ob = Some OtherDecl \<or> ob = Some (ValueSpec []) \<or> ob = Some (ValueSpec (OtherInit # vs)))
        \<and> verifySchema debug schemaName docset es1 = (out1, None) \<longrightarrow>
      (\<exists>e. verifySchema debug schemaName docset (es1 @ [KeyValueExpr (Ident c ob) v] @ es2)
             = (out1, Some e)))"
proof (intro conjI impI)
  assume "ob = Some (ValueSpec (LiteralInit l # vs))"
  then show "verifySchema debug schemaName docset (es1 @ [KeyValueExpr (Ident c ob) v] @ es2)
        = verifySchema debug schemaName docset (es1 @ [KeyValueExpr (BasicLit l) v] @ es2)"
    by (simp add: verifySchema_def verifyAttribute_ident_literal)
next
  assume a: "(ob = None \<or> ob = Some OtherDecl \<or> ob = Some (ValueSpec []) \<or> ob = Some (ValueSpec (OtherInit # vs)))
        \<and> verifySchema debug schemaName docset es1 = (out1, None)"
  then obtain e where e: "verifyAttribute debug schemaName docset (KeyValueExpr (Ident c ob) v) = ([], Some e)"
    using verifyAttribute_ident_panic by blast
  have "verifySchema debug schemaName docset ([KeyValueExpr (Ident c ob) v] @ es2) = ([], Some e)"
    by (simp add: verifySchema_def e)
  with a have "verifySchema debug schemaName docset (es1 @ [KeyValueExpr (Ident c ob) v] @ es2) = (out1, Some e)"
    by (simp add: verifySchema_append [of _ _ _ es1])
  then show "\<exists>e. verifySchema debug schemaName docset (es1 @ [KeyValueExpr (Ident c ob) v] @ es2)
             = (out1, Some e)" ..
qed

lemma identifier_key_not_skipped_example:
  "verifySchema False ''acme_widget'' ''* `size` - the size''
     [stringAttribute (BasicLit (CHR 0x22 # ''name'' @ [CHR 0x22])),
      stringAttribute (Ident ''attrSize'' (Some (ValueSpec [LiteralInit (CHR 0x22 # ''size'' @ [CHR 0x22]), LiteralInit (CHR 0x22 # ''zone'' @ [CHR 0x22])]))),
      stringAttribute (BasicLit (CHR 0x22 # ''colour'' @ [CHR 0x22]))]
    = ([Missing ''`name`'' ''acme_widget'', Missing ''`colour`'' ''acme_widget''], None)
   \<and> (\<exists>e. verifySchema False ''acme_widget'' ''* `size` - the size''
     [stringAttribute (BasicLit (CHR 0x22 # ''name'' @ [CHR 0x22])),
      stringAttribute (Ident ''attrZone'' None),
      stringAttribute (BasicLit (CHR 0x22 # ''colour'' @ [CHR 0x22]))]
    = ([Missing ''`name`'' ''acme_widget''], Some e))"
proof -
  let ?v = "CompositeLit None
       [KeyValueExpr (Ident ''Type'' None) (SelectorExpr (Ident ''schema'' None) ''TypeString'')]"
  let ?es1 = "[stringAttribute (BasicLit (CHR 0x22 # ''name'' @ [CHR 0x22]))]"
  let ?es2 = "[stringAttribute (BasicLit (CHR 0x22 # ''colour'' @ [CHR 0x22]))]"
  have es1: "verifySchema False ''acme_widget'' ''* `size` - the size'' ?es1
       = ([Missing ''`name`'' ''acme_widget''], None)"
    by (simp add: verifySchema_def verifyAttribute_def keyLiteral_def decodeString_def eval_defs HasPrefix_def)
  have lit: "verifySchema False ''acme_widget'' ''* `size` - the size''
       (?es1 @ [KeyValueExpr (BasicLit (CHR 0x22 # ''size'' @ [CHR 0x22])) ?v] @ ?es2)
       = ([Missing ''`name`'' ''acme_widget'', Missing ''`colour`'' ''acme_widget''], None)"
    by (simp add: verifySchema_def verifyAttribute_def keyLiteral_def decodeString_def eval_defs HasPrefix_def)
  from identifier_key_not_skipped
    [where ob = "Some (ValueSpec [LiteralInit (CHR 0x22 # ''size'' @ [CHR 0x22]), LiteralInit (CHR 0x22 # ''zone'' @ [CHR 0x22])])"
       and l = "CHR 0x22 # ''size'' @ [CHR 0x22]" and vs = "[LiteralInit (CHR 0x22 # ''zone'' @ [CHR 0x22])]"
       and debug = False and schemaName = "''acme_widget''" and docset = "''* `size` - the size''"
       and ?es1.0 = ?es1 and ?es2.0 = ?es2 and c = "''attrSize''" and v = ?v]
  have 1: "verifySchema False ''acme_widget'' ''* `size` - the size''
       (?es1 @ [KeyValueExpr (Ident ''attrSize'' (Some (ValueSpec [LiteralInit (CHR 0x22 # ''size'' @ [CHR 0x22]), LiteralInit (CHR 0x22 # ''zone'' @ [CHR 0x22])]))) ?v] @ ?es2)
       = ([Missing ''`name`'' ''acme_widget'', Missing ''`colour`'' ''acme_widget''], None)"
    by (simp only: lit simp_thms)
  from identifier_key_not_skipped
    [where ob = None and debug = False and schemaName = "''acme_widget''" and docset = "''* `size` - the size''"
       and ?es1.0 = ?es1 and ?es2.0 = ?es2 and c = "''attrZone''" and v = ?v
       and ?out1.0 = "[Missing ''`name`'' ''acme_widget'']"] es1
  have 2: "\<exists>e. verifySchema False ''acme_widget'' ''* `size` - the size''
       (?es1 @ [KeyValueExpr (Ident ''attrZone'' None) ?v] @ ?es2)
       = ([Missing ''`name`'' ''acme_widget''], Some e)"
    by simp
  from 1 2 show ?thesis by (simp add: stringAttribute_def)
qed


subsection \<open>Classifying documentation\<close>

lemmas classify_defs = classifyDoc_def classifyValue_def fragment_def dropCR_def HasPrefix_def
  canonicalName_def stripKeyword_def Replace_def

lemma HasPrefix_iff: "HasPrefix s pre \<longleftrightarrow> (\<exists>ys. s = pre @ ys)"
proof
  assume "HasPrefix s pre"
  then have "s = pre @ drop (length pre) s"
    by (metis HasPrefix_def append_take_drop_id)
  then show "\<exists>ys. s = pre @ ys" ..
next
  assume "\<exists>ys. s = pre @ ys"
  then show "HasPrefix s pre" by (auto simp: HasPrefix_def)
qed

lemma Contains_iff: "Contains s sub \<longleftrightarrow> (\<exists>xs ys. s = xs @ sub @ ys)"
proof (induction s)
  case Nil
  then show ?case by simp
next
  case (Cons c cs)
  show ?case
  proof
    assume "Contains (c # cs) sub"
    then consider "HasPrefix (c # cs) sub" | "Contains cs sub" by auto
    then show "\<exists>xs ys. c # cs = xs @ sub @ ys"
    proof cases
      case 1
      then obtain ys where "c # cs = sub @ ys" by (auto simp: HasPrefix_iff)
      then have "c # cs = [] @ sub @ ys" by simp
      then show ?thesis by blast
    next
      case 2
      with Cons.IH obtain xs ys where "cs = xs @ sub @ ys" by blast
      then have "c # cs = (c # xs) @ sub @ ys" by simp
      then show ?thesis by blast
    qed
  next
    assume "\<exists>xs ys. c # cs = xs @ sub @ ys"
    then obtain xs ys where eq: "c # cs = xs @ sub @ ys" by blast
    show "Contains (c # cs) sub"
    proof (cases xs)
      case Nil
      with eq have "HasPrefix (c # cs) sub" by (auto simp: HasPrefix_iff)
      then show ?thesis by simp
    next
      case (Cons x xs')
      with eq have "cs = xs' @ sub @ ys" by simp
      with Cons.IH have "Contains cs sub" by blast
      then show ?thesis by simp
    qed
  qed
qed

lemma Contains_subset: "Contains s sub \<Longrightarrow> set sub \<subseteq> set s"
  by (auto simp: Contains_iff)

lemma Contains_drop: "Contains (drop j s) sub \<Longrightarrow> Contains s sub"
proof -
  assume "Contains (drop j s) sub"
  then obtain xs ys where "drop j s = xs @ sub @ ys" by (auto simp: Contains_iff)
  then have "s = (take j s @ xs) @ sub @ ys"
    by (metis append.assoc append_take_drop_id)
  then show ?thesis unfolding Contains_iff by blast
qed

lemma map_eq_fixed:
  "map f xs = ys \<Longrightarrow> (\<And>x. f x \<in> set ys \<Longrightarrow> f x = x) \<Longrightarrow> xs = ys"
proof (induction xs arbitrary: ys)
  case Nil
  then show ?case by simp
next
  case (Cons x xs)
  then obtain y ys' where ys: "ys = y # ys'" and y: "f x = y" and rest: "map f xs = ys'"
    by auto
  from Cons.prems(2) [of x] ys y have "x = y" by simp
  moreover have "xs = ys'"
    by (rule Cons.IH [OF rest]) (use Cons.prems(2) ys in auto)
  ultimately show ?case using ys by simp
qed

lemma Contains_map:
  assumes "Contains (map f s) sub" and fixed: "\<And>x. f x \<in> set sub \<Longrightarrow> f x = x"
  shows "Contains s sub"
proof -
  from assms(1) obtain xs ys where "map f s = xs @ (sub @ ys)" by (auto simp: Contains_iff)
  then have "\<exists>us vs. s = us @ vs \<and> xs = map f us \<and> sub @ ys = map f vs"
    by (simp only: map_eq_append_conv)
  then obtain xs' vs where s1: "s = xs' @ vs" and vs: "sub @ ys = map f vs" by blast
  from vs have "\<exists>us' vs'. vs = us' @ vs' \<and> sub = map f us' \<and> ys = map f vs'"
    by (simp only: append_eq_map_conv)
  then obtain sub' ys' where s2: "vs = sub' @ ys'" and sub': "map f sub' = sub" by auto
  from s1 s2 have s: "s = xs' @ sub' @ ys'" by simp
  from map_eq_fixed [OF sub' fixed] have "sub' = sub" by simp
  with s show ?thesis unfolding Contains_iff by blast
qed

lemma normalise_chars: "CHR '' '' \<notin> set (normalise n) \<and> CHR ''-'' \<notin> set (normalise n)"
  by (auto simp: normalise_def Replace_def)

lemma normalise_id: "CHR '' '' \<notin> set s \<Longrightarrow> CHR ''-'' \<notin> set s \<Longrightarrow> normalise s = s"
  by (induction s) (auto simp: normalise_def Replace_def)

lemma normalise_Nil: "normalise n = [] \<longleftrightarrow> n = []"
  by (simp add: normalise_def Replace_def)

lemma Contains_normalise:
  assumes "Contains (normalise n) sub" and "CHR ''_'' \<notin> set sub"
  shows "Contains n sub"
proof -
  have "normalise n = map (\<lambda>c. if c = CHR '' '' \<or> c = CHR ''-'' then CHR ''_'' else c) n"
    by (simp add: normalise_def Replace_def)
  with assms(1) have "Contains (map (\<lambda>c. if c = CHR '' '' \<or> c = CHR ''-'' then CHR ''_'' else c) n) sub"
    by simp
  then show ?thesis
    by (rule Contains_map) (use assms(2) in \<open>auto split: if_splits\<close>)
qed

lemma stripKeyword_drop: "\<exists>j. stripKeyword kw k line = drop j line"
proof -
  let ?l1 = "if HasPrefix line kw then drop k line else line"
  obtain i where l1: "?l1 = drop i line"
    by (cases "HasPrefix line kw") (auto intro: that [of 0] that [of k])
  show ?thesis
  proof (cases "Contains ?l1 kw")
    case True
    then have "stripKeyword kw k line = drop (nat (LastIndex ?l1 kw + int k)) ?l1"
      by (simp add: stripKeyword_def Let_def)
    also have "\<dots> = drop (nat (LastIndex ?l1 kw + int k) + i) line"
      by (simp only: l1 drop_drop)
    finally show ?thesis by blast
  next
    case False
    then have "stripKeyword kw k line = ?l1" by (simp add: stripKeyword_def Let_def)
    with l1 show ?thesis by metis
  qed
qed

lemma canonicalName_Inr:
  "canonicalName providerName t0 m = Inr (n, t) \<Longrightarrow>
   t = t0 \<and> m \<noteq> [] \<and> n = providerName @ ''_'' @ normalise m"
  by (auto simp: canonicalName_def normalise_def split: if_splits)

lemma classifyLines_value:
  "classifyLines providerName path ls = Inr (n, t) \<Longrightarrow>
   \<exists>v. classifyValue providerName path v = Some (Inr (n, t))"
proof (induction ls)
  case Nil
  then show ?case by simp
next
  case (Cons line rest)
  show ?case
  proof (cases "Contains line ''sidebar_current''")
    case False
    with Cons show ?thesis by simp
  next
    case True
    with Cons.prems obtain p0 p1 ps where parts: "splitColonSpace [] line = p0 # p1 # ps"
      by (auto split: list.splits)
    let ?v = "take (length p1 - 2) (drop 1 p1)"
    from Cons.prems True parts have len: "\<not> length p1 < 2" by (auto split: if_splits)
    show ?thesis
    proof (cases "classifyValue providerName path ?v")
      case None
      with Cons.prems True parts len have "classifyLines providerName path rest = Inr (n, t)"
        by simp
      then show ?thesis by (rule Cons.IH)
    next
      case (Some r)
      with Cons.prems True parts len have "r = Inr (n, t)" by simp
      with Some show ?thesis by blast
    qed
  qed
qed

lemma classifyValue_result:
  assumes "classifyValue providerName path v = Some (Inr (n, t))"
  shows "\<exists>m. m \<noteq> [] \<and> n = providerName @ ''_'' @ normalise m
           \<and> (t = docTypeDatasource \<or>
              (t = docTypeResource \<and> \<not> Contains m ''datasource''
                 \<and> \<not> Contains path ''/d/'' \<and> \<not> Contains path ''data_source''))"
proof -
  define line2 where "line2 = (if HasPrefix v ''docs-'' then drop 5 v else v)"
  define line3 where "line3 = (if HasPrefix line2 (providerName @ ''-'')
                then drop (length providerName + 1) line2 else line2)"
  let ?ds = "Contains line3 ''datasource'' \<or> Contains line3 ''data-source''
            \<or> Contains path ''/d/'' \<or> Contains path ''data_source''"
  have cv: "classifyValue providerName path v =
     (if ?ds then Some (canonicalName providerName docTypeDatasource (stripKeyword ''datasource-'' 11 line3))
      else if Contains line3 ''resource'' \<or> Contains path ''/r/''
      then Some (canonicalName providerName docTypeResource (stripKeyword ''resource-'' 9 line3))
      else None)"
    unfolding classifyValue_def Let_def line3_def line2_def ..
  show ?thesis
  proof (cases ?ds)
    case True
    with assms cv have "canonicalName providerName docTypeDatasource
        (stripKeyword ''datasource-'' 11 line3) = Inr (n, t)"
      by simp
    from canonicalName_Inr [OF this] show ?thesis by blast
  next
    case False
    with assms cv have c: "canonicalName providerName docTypeResource
        (stripKeyword ''resource-'' 9 line3) = Inr (n, t)"
      by (simp split: if_splits)
    obtain j where j: "stripKeyword ''resource-'' 9 line3 = drop j line3"
      using stripKeyword_drop by blast
    from False have "\<not> Contains line3 ''datasource''" by blast
    then have nods: "\<not> Contains (drop j line3) ''datasource''" using Contains_drop by blast
    from canonicalName_Inr [OF c] j have "t = docTypeResource" and "drop j line3 \<noteq> []"
      and "n = providerName @ ''_'' @ normalise (drop j line3)" by simp_all
    with nods False show ?thesis by blast
  qed
qed

lemma classifyValue_conventional:
  assumes "suffix \<noteq> []" and "CHR '' '' \<notin> set suffix" and "CHR ''-'' \<notin> set suffix"
    and "t = docTypeDatasource \<or>
          (t = docTypeResource \<and> \<not> Contains suffix ''datasource''
             \<and> \<not> Contains path ''/d/'' \<and> \<not> Contains path ''data_source'')"
  shows "classifyValue providerName path (conventionalValue providerName t suffix)
           = Some (Inr (providerName @ ''_'' @ suffix, t))"
proof -
  let ?kw = "kindKeyword t @ ''-'' @ suffix"
  let ?cv = "conventionalValue providerName t suffix"
  have nokw: "\<not> Contains suffix ''datasource-''" "\<not> Contains suffix ''resource-''"
    "\<not> Contains suffix ''data-source''"
    using assms(3) by (auto dest!: Contains_subset)
  have cn: "canonicalName providerName t suffix = Inr (providerName @ ''_'' @ suffix, t)"
    using normalise_id [OF assms(2,3)] assms(1) by (simp add: normalise_def canonicalName_def)
  have h1: "HasPrefix ?cv ''docs-''"
    by (simp add: HasPrefix_def conventionalValue_def)
  have d1: "drop 5 ?cv = providerName @ ''-'' @ ?kw"
    by (simp add: conventionalValue_def)
  have h2: "HasPrefix (providerName @ ''-'' @ ?kw) (providerName @ ''-'')"
    by (simp add: HasPrefix_def)
  have d2: "drop (length providerName + 1) (providerName @ ''-'' @ ?kw) = ?kw"
    by simp
  have cv: "classifyValue providerName path ?cv =
     (if Contains ?kw ''datasource'' \<or> Contains ?kw ''data-source''
          \<or> Contains path ''/d/'' \<or> Contains path ''data_source''
      then Some (canonicalName providerName docTypeDatasource (stripKeyword ''datasource-'' 11 ?kw))
      else if Contains ?kw ''resource'' \<or> Contains path ''/r/''
      then Some (canonicalName providerName docTypeResource (stripKeyword ''resource-'' 9 ?kw))
      else None)"
    unfolding classifyValue_def Let_def by (simp only: h1 if_True d1 h2 d2)
  from assms(4) show ?thesis
  proof
    assume t: "t = docTypeDatasource"
    have kw: "?kw = ''datasource-'' @ suffix" by (simp add: t kindKeyword_def)
    have s: "stripKeyword ''datasource-'' 11 (''datasource-'' @ suffix) = suffix"
      using nokw by (simp add: stripKeyword_def HasPrefix_def)
    have c: "Contains (''datasource-'' @ suffix) ''datasource''"
      by (simp add: HasPrefix_def)
    show ?thesis
      unfolding cv kw using c cn by (simp only: s t simp_thms if_True)
  next
    assume r: "t = docTypeResource \<and> \<not> Contains suffix ''datasource''
             \<and> \<not> Contains path ''/d/'' \<and> \<not> Contains path ''data_source''"
    then have t: "t = docTypeResource" ..
    have kw: "?kw = ''resource-'' @ suffix" by (simp add: t kindKeyword_def)
    have s: "stripKeyword ''resource-'' 9 (''resource-'' @ suffix) = suffix"
      using nokw by (simp add: stripKeyword_def HasPrefix_def)
    have c: "Contains (''resource-'' @ suffix) ''resource''"
      by (simp add: HasPrefix_def)
    have n1: "\<not> Contains (''resource-'' @ suffix) ''datasource''"
      using r by (simp add: HasPrefix_def)
    have n2: "\<not> Contains (''resource-'' @ suffix) ''data-source''"
      using nokw by (simp add: HasPrefix_def)
    from r have n3: "\<not> Contains path ''/d/''" and n4: "\<not> Contains path ''data_source''" by simp_all
    show ?thesis
      unfolding cv kw using c cn n1 n2 n3 n4 by (simp only: s t simp_thms if_True if_False)
  qed
qed

text \<open>
  C8, amended. For every fragment the Classifier classifies, the canonical name is the
  provider name, an underscore and a non-empty suffix without space or hyphen, and applying
  the Classifier's rules again, under the same path, to the front-matter value of the
  convention rebuilt from the result (\<^verbatim>\<open>docs-{provider}-{kind}-{suffix}\<close>, the kind
  keyword put back) gives the same canonical name and the same kind.
\<close>

theorem classification_round_trip:
  assumes "classifyDoc providerName path content = Inr (n, t)"
  shows "\<exists>suffix. n = providerName @ ''_'' @ suffix \<and> suffix \<noteq> []
           \<and> CHR '' '' \<notin> set suffix \<and> CHR ''-'' \<notin> set suffix
           \<and> classifyValue providerName path (conventionalValue providerName t suffix)
               = Some (Inr (n, t))"
proof -
  from assms obtain v where "classifyValue providerName path v = Some (Inr (n, t))"
    unfolding classifyDoc_def using classifyLines_value by blast
  from classifyValue_result [OF this] obtain m where m: "m \<noteq> []"
    and n: "n = providerName @ ''_'' @ normalise m"
    and kind: "t = docTypeDatasource \<or>
              (t = docTypeResource \<and> \<not> Contains m ''datasource''
                 \<and> \<not> Contains path ''/d/'' \<and> \<not> Contains path ''data_source'')"
    by blast
  let ?s = "normalise m"
  from m have ne: "?s \<noteq> []" by (simp add: normalise_Nil)
  have chars: "CHR '' '' \<notin> set ?s" "CHR ''-'' \<notin> set ?s" using normalise_chars by blast+
  have "\<not> Contains ?s ''datasource''" if "\<not> Contains m ''datasource''"
    using that Contains_normalise [of m "''datasource''"] by auto
  with kind have kind': "t = docTypeDatasource \<or>
              (t = docTypeResource \<and> \<not> Contains ?s ''datasource''
                 \<and> \<not> Contains path ''/d/'' \<and> \<not> Contains path ''data_source'')"
    by blast
  from classifyValue_conventional [OF ne chars kind', of providerName] n ne chars
  show ?thesis by blast
qed

theorem classification_round_trip_witness:
  "classifyDoc ''acme'' ''website/docs/r/widget.html.markdown''
      (fragment ''docs-acme-resource-big widget'' ''About widgets'')
     = Inr (''acme_big_widget'', docTypeResource)
   \<and> (\<exists>suffix. ''acme_big_widget'' = ''acme'' @ ''_'' @ suffix \<and> suffix \<noteq> []
         \<and> classifyValue ''acme'' ''website/docs/r/widget.html.markdown''
              (conventionalValue ''acme'' docTypeResource suffix)
            = Some (Inr (''acme_big_widget'', docTypeResource)))"
proof -
  have c: "classifyDoc ''acme'' ''website/docs/r/widget.html.markdown''
      (fragment ''docs-acme-resource-big widget'' ''About widgets'')
     = Inr (''acme_big_widget'', docTypeResource)"
    by (simp add: classify_defs)
  from classification_round_trip [OF c] c show ?thesis by blast
qed

text \<open>
  C8, as stated, fails: the canonical name does not carry the kind. The fragment with the
  value \<^verbatim>\<open>docs-acme-resource-widget\<close> is classified as the resource \<^verbatim>\<open>acme_widget\<close>;
  the Classifier's rules applied to \<^verbatim>\<open>acme_widget\<close> give no kind at all (as a fragment's
  value it is not classified); and the fragment with the value
  \<^verbatim>\<open>docs-acme-datasource-widget\<close> has the same canonical name and the other kind.
\<close>

theorem canonical_name_reclassified_counterexample:
  "classifyDoc ''acme'' ''docs/widget.md'' (fragment ''docs-acme-resource-widget'' ''About widgets'')
     = Inr (''acme_widget'', docTypeResource)
   \<and> classifyValue ''acme'' ''docs/widget.md'' ''acme_widget'' = None
   \<and> classifyDoc ''acme'' ''docs/widget.md'' (fragment ''acme_widget'' ''About widgets'')
     = Inl CouldNotFindSidebar
   \<and> classifyDoc ''acme'' ''docs/widget.md'' (fragment ''docs-acme-datasource-widget'' ''About widgets'')
     = Inr (''acme_widget'', docTypeDatasource)"
  by (simp add: classify_defs)


subsection \<open>The documentation index\<close>

lemma visitDoc_effect:
  "visitDoc providerName extensions entry d =
     (case docEffect providerName extensions entry of
        Inl e \<Rightarrow> Inl e
      | Inr None \<Rightarrow> Inr d
      | Inr (Some (t, k, v)) \<Rightarrow> Inr (store t k v d))"
  by (auto simp: visitDoc_def docEffect_def store_def split: option.splits sum.splits failure.splits)

lemma store_store: "store t k v' (store t k v d) = store t k v' d"
  by (simp add: store_def)

lemma store_commute:
  "(t, k) \<noteq> (t', k') \<Longrightarrow> store t k v (store t' k' v' d) = store t' k' v' (store t k v d)"
  by (cases t; cases t') (auto simp: store_def fun_upd_twist)

lemma indexOf_store:
  "indexOf t' (store t k v d) k' = (if t' = t \<and> k' = k then Some v else indexOf t' d k')"
  by (cases t; cases t') (auto simp: indexOf_def store_def)

lemma forEach_absorb:
  assumes "store t n c da = store t n c db"
  shows "(\<forall>e. forEach (visitDoc providerName extensions) fs da = Inl e \<longrightarrow>
              forEach (visitDoc providerName extensions) fs db = Inl e)
       \<and> (\<forall>da'. forEach (visitDoc providerName extensions) fs da = Inr da' \<longrightarrow>
              (\<exists>db'. forEach (visitDoc providerName extensions) fs db = Inr db'
                     \<and> store t n c da' = store t n c db'))"
  using assms
proof (induction fs arbitrary: da db)
  case Nil
  then show ?case by simp
next
  case (Cons f fs)
  show ?case
  proof (cases "docEffect providerName extensions f")
    case (Inl e)
    have "visitDoc providerName extensions f d0 = Inl e" for d0
      by (simp add: visitDoc_effect [of providerName extensions f d0] Inl)
    then show ?thesis by simp
  next
    case (Inr eff)
    show ?thesis
    proof (cases eff)
      case None
      have "visitDoc providerName extensions f d0 = Inr d0" for d0
        by (simp add: visitDoc_effect [of providerName extensions f d0] Inr None)
      with Cons.IH [OF Cons.prems] show ?thesis by simp
    next
      case (Some tkv)
      obtain t' k' v' where tkv: "tkv = (t', k', v')" by (cases tkv)
      have step: "visitDoc providerName extensions f d0 = Inr (store t' k' v' d0)" for d0
        by (simp add: visitDoc_effect [of providerName extensions f d0] Inr Some tkv)
      have "store t n c (store t' k' v' da) = store t n c (store t' k' v' db)"
      proof (cases "(t, n) = (t', k')")
        case True
        with Cons.prems show ?thesis by (simp add: store_store)
      next
        case False
        have "store t n c (store t' k' v' da) = store t' k' v' (store t n c da)"
          by (rule store_commute [OF False])
        moreover have "store t n c (store t' k' v' db) = store t' k' v' (store t n c db)"
          by (rule store_commute [OF False])
        ultimately show ?thesis using Cons.prems by simp
      qed
      from Cons.IH [OF this] show ?thesis by (simp add: step)
    qed
  qed
qed

lemma forEach_keeps:
  assumes "\<not> list_ex (classifiesTo providerName extensions n t) fs"
    and "forEach (visitDoc providerName extensions) fs d = Inr d'"
  shows "indexOf t d' n = indexOf t d n"
  using assms
proof (induction fs arbitrary: d)
  case Nil
  then show ?case by simp
next
  case (Cons f fs)
  from Cons.prems(1) have f: "\<not> classifiesTo providerName extensions n t f"
    and fs: "\<not> list_ex (classifiesTo providerName extensions n t) fs" by simp_all
  from Cons.prems(2) obtain d1 where d1: "visitDoc providerName extensions f d = Inr d1"
    and rest: "forEach (visitDoc providerName extensions) fs d1 = Inr d'"
    by (auto split: sum.splits)
  have "indexOf t d1 n = indexOf t d n"
  proof (cases "docEffect providerName extensions f")
    case (Inl e)
    with d1 show ?thesis by (simp add: visitDoc_effect [of providerName extensions f d])
  next
    case (Inr eff)
    show ?thesis
    proof (cases eff)
      case None
      with Inr d1 show ?thesis by (simp add: visitDoc_effect [of providerName extensions f d])
    next
      case (Some tkv)
      obtain t' k' v' where tkv: "tkv = (t', k', v')" by (cases tkv)
      from Inr Some tkv have "candidate extensions (fst f)" and "snd f = Some v'"
        and "classifyDoc providerName (fst f) v' = Inr (k', t')"
        by (auto simp: docEffect_def split: if_splits option.splits sum.splits failure.splits)
      with f have "\<not> (t' = t \<and> k' = n)" by (auto simp: classifiesTo_def)
      moreover from Inr Some tkv d1 have "d1 = store t' k' v' d"
        by (simp add: visitDoc_effect [of providerName extensions f d])
      ultimately show ?thesis by (auto simp: indexOf_store)
    qed
  qed
  with Cons.IH [OF fs rest] show ?case by simp
qed

text \<open>
  C10. Two fragments on candidate paths that classify to the same canonical name \<open>n\<close> and
  the same kind \<open>t\<close>: the index is the one that the walk builds without the earlier fragment,
  so the content of the earlier fragment is in no entry because of that fragment, and no
  reader of the index sees it; and when no fragment visited after the later one classifies to
  \<open>n\<close> and \<open>t\<close>, the entry of \<open>n\<close> in the index of kind \<open>t\<close> is the later fragment.
\<close>

theorem loadDocumentation_later_wins:
  assumes "candidate extensions p1" and "candidate extensions p2"
    and "classifyDoc providerName p1 c1 = Inr (n, t)"
    and "classifyDoc providerName p2 c2 = Inr (n, t)"
  shows "loadDocumentation providerName extensions (fs1 @ [(p1, Some c1)] @ fs2 @ [(p2, Some c2)] @ fs3)
           = loadDocumentation providerName extensions (fs1 @ fs2 @ [(p2, Some c2)] @ fs3)
       \<and> (\<forall>d. loadDocumentation providerName extensions
                 (fs1 @ [(p1, Some c1)] @ fs2 @ [(p2, Some c2)] @ fs3) = Inr d
              \<and> \<not> list_ex (classifiesTo providerName extensions n t) fs3
              \<longrightarrow> indexOf t d n = Some c2)"
proof -
  let ?V = "visitDoc providerName extensions"
  let ?init = "\<lparr>Datasources = Map.empty, Resources = Map.empty\<rparr>"
  have e1: "?V (p1, Some c1) d0 = Inr (store t n c1 d0)"
    and e2: "?V (p2, Some c2) d0 = Inr (store t n c2 d0)" for d0
    using assms
    by (simp_all add: visitDoc_effect [of providerName extensions _ d0] docEffect_def)
  have tail: "forEach ?V ([(p1, Some c1)] @ fs2 @ [(p2, Some c2)] @ fs3) d0
            = forEach ?V (fs2 @ [(p2, Some c2)] @ fs3) d0" for d0
  proof -
    have "store t n c2 (store t n c1 d0) = store t n c2 d0" by (rule store_store)
    note absorb = forEach_absorb [OF this, of providerName extensions fs2]
    show ?thesis
    proof (cases "forEach ?V fs2 (store t n c1 d0)")
      case (Inl e)
      with absorb have "forEach ?V fs2 d0 = Inl e" by blast
      with Inl show ?thesis by (simp add: forEach_append e1)
    next
      case (Inr da')
      with absorb obtain db' where db: "forEach ?V fs2 d0 = Inr db'"
        and same: "store t n c2 da' = store t n c2 db'" by blast
      from Inr db same show ?thesis by (simp add: forEach_append e1 e2)
    qed
  qed
  have eq: "loadDocumentation providerName extensions (fs1 @ [(p1, Some c1)] @ fs2 @ [(p2, Some c2)] @ fs3)
           = loadDocumentation providerName extensions (fs1 @ fs2 @ [(p2, Some c2)] @ fs3)"
    unfolding loadDocumentation_def
    by (simp only: forEach_append [of _ fs1] tail)
  have last: "indexOf t d n = Some c2"
    if d: "loadDocumentation providerName extensions
                 (fs1 @ [(p1, Some c1)] @ fs2 @ [(p2, Some c2)] @ fs3) = Inr d"
      and no: "\<not> list_ex (classifiesTo providerName extensions n t) fs3" for d
  proof -
    from d [unfolded eq]
    have full: "forEach ?V ((fs1 @ fs2) @ ((p2, Some c2) # fs3)) ?init = Inr d"
      by (simp add: loadDocumentation_def)
    show ?thesis
    proof (cases "forEach ?V (fs1 @ fs2) ?init")
      case (Inl e)
      with full show ?thesis unfolding forEach_append by simp
    next
      case (Inr d1)
      with full have "forEach ?V fs3 (store t n c2 d1) = Inr d"
        unfolding forEach_append by (simp add: e2)
      from forEach_keeps [OF no this] show ?thesis by (simp add: indexOf_store)
    qed
  qed
  from eq last show ?thesis by blast
qed

theorem loadDocumentation_later_wins_witness:
  "loadDocumentation ''acme'' docExtensions
     [(''website/docs/r/widget.md'', Some (fragment ''docs-acme-resource-widget'' ''The old text'')),
      (''website/docs/r/notes.txt'', Some ''notes''),
      (''website/docs/r/widget.html.markdown'', Some (fragment ''docs-acme-resource-widget'' ''The new text''))]
   = loadDocumentation ''acme'' docExtensions
     [(''website/docs/r/notes.txt'', Some ''notes''),
      (''website/docs/r/widget.html.markdown'', Some (fragment ''docs-acme-resource-widget'' ''The new text''))]
   \<and> loadDocumentation ''acme'' docExtensions
     [(''website/docs/r/widget.md'', Some (fragment ''docs-acme-resource-widget'' ''The old text'')),
      (''website/docs/r/notes.txt'', Some ''notes''),
      (''website/docs/r/widget.html.markdown'', Some (fragment ''docs-acme-resource-widget'' ''The new text''))]
   = Inr \<lparr>Datasources = Map.empty,
          Resources = [''acme_widget'' \<mapsto> fragment ''docs-acme-resource-widget'' ''The new text'']\<rparr>
   \<and> indexOf docTypeResource
        \<lparr>Datasources = Map.empty,
          Resources = [''acme_widget'' \<mapsto> fragment ''docs-acme-resource-widget'' ''The new text'']\<rparr>
        ''acme_widget''
      = Some (fragment ''docs-acme-resource-widget'' ''The new text'')"
proof -
  let ?old = "fragment ''docs-acme-resource-widget'' ''The old text''"
  let ?new = "fragment ''docs-acme-resource-widget'' ''The new text''"
  let ?fs2 = "[(''website/docs/r/notes.txt'', Some ''notes'')]"
  have c1: "candidate docExtensions ''website/docs/r/widget.md''"
    and c2: "candidate docExtensions ''website/docs/r/widget.html.markdown''"
    and c3: "\<not> candidate docExtensions ''website/docs/r/notes.txt''"
    by (simp_all add: candidate_def docExtensions_def HasSuffix_def)
  have k1: "classifyDoc ''acme'' ''website/docs/r/widget.md'' ?old = Inr (''acme_widget'', docTypeResource)"
    by (simp add: classify_defs)
  have k2: "classifyDoc ''acme'' ''website/docs/r/widget.html.markdown'' ?new = Inr (''acme_widget'', docTypeResource)"
    by (simp add: classify_defs)
  have run: "loadDocumentation ''acme'' docExtensions
      ([] @ [(''website/docs/r/widget.md'', Some ?old)] @ ?fs2
          @ [(''website/docs/r/widget.html.markdown'', Some ?new)] @ [])
      = Inr \<lparr>Datasources = Map.empty, Resources = [''acme_widget'' \<mapsto> ?new]\<rparr>"
    by (simp add: loadDocumentation_def visitDoc_def c1 c2 c3 k1 k2)
  note inst = loadDocumentation_later_wins [OF c1 c2 k1 k2, of "[]" ?fs2 "[]"]
  from inst have eq: "loadDocumentation ''acme'' docExtensions
      ([] @ [(''website/docs/r/widget.md'', Some ?old)] @ ?fs2
          @ [(''website/docs/r/widget.html.markdown'', Some ?new)] @ [])
      = loadDocumentation ''acme'' docExtensions
      ([] @ ?fs2 @ [(''website/docs/r/widget.html.markdown'', Some ?new)] @ [])"
    by (rule conjunct1)
  from inst run have ix: "indexOf docTypeResource
      \<lparr>Datasources = Map.empty, Resources = [''acme_widget'' \<mapsto> ?new]\<rparr> ''acme_widget'' = Some ?new"
    by simp
  from eq run ix show ?thesis by simp
qed



end
